theory Spec2Isabelle
  imports Main "HOL-Library.Word"
begin

section \<open>Data model of \<^verbatim>\<open>caffe2/operators/order_switch_ops_cudnn.cc\<close>\<close>

text \<open>
  The operators work on vectors of C++ \<^verbatim>\<open>int\<close>: a 32-bit word, read as two's
  complement by \<open>sint\<close>. Products of extents are computed in that type, so every product
  below is the 32-bit one; where C++ leaves a signed overflow undefined, the word wraps
  around.
\<close>

type_synonym int32 = "32 word"

text \<open>
  Modelled from the spec: \<^verbatim>\<open>StorageOrder\<close> is declared outside the sources; section 3
  has the two layouts channel-last (NHWC) and channel-second (NCHW).
\<close>

datatype StorageOrder = NHWC | NCHW

datatype cudnnTensorFormat_t = CUDNN_TENSOR_NCHW | CUDNN_TENSOR_NHWC

datatype cudnnDataType_t = CUDNN_DATA_FLOAT | CUDNN_DATA_DOUBLE | CUDNN_DATA_HALF

text \<open>
  The element type tag of a tensor, and the two instantiations of \<^verbatim>\<open>DoRunWithType<T>\<close>
  with their tags: \<^verbatim>\<open>TypeMeta::Make<T>()\<close> for a tensor and \<^verbatim>\<open>cudnnTypeWrapper<T>::type\<close>
  for a descriptor.
\<close>

datatype TypeMeta =
  meta_float | meta_Half | meta_double | meta_int | meta_int64 | meta_uint8 | meta_bool

datatype T = T_float | T_Half

fun TypeMeta_Make :: "T \<Rightarrow> TypeMeta" where
  "TypeMeta_Make T_float = meta_float"
| "TypeMeta_Make T_Half = meta_Half"

fun cudnnTypeWrapper_type :: "T \<Rightarrow> cudnnDataType_t" where
  "cudnnTypeWrapper_type T_float = CUDNN_DATA_FLOAT"
| "cudnnTypeWrapper_type T_Half = CUDNN_DATA_HALF"

text \<open>
  What can go wrong. \<open>RankError\<close>, \<open>UnsupportedTypeError\<close> and \<open>TransformFailure\<close> are
  the three failures of the specification; \<open>OutOfRange\<close> stands for an access outside a
  vector, which is undefined behaviour in C++ and is made a value here.
\<close>

datatype error = RankError | UnsupportedTypeError | TransformFailure | OutOfRange

definition bind_err :: "error + 'a \<Rightarrow> ('a \<Rightarrow> error + 'b) \<Rightarrow> error + 'b" where
  "bind_err m f = (case m of Inl e \<Rightarrow> Inl e | Inr x \<Rightarrow> f x)"

subsection \<open>Vectors\<close>

text \<open>\<^verbatim>\<open>v[i]\<close>, \<^verbatim>\<open>v.back()\<close>, \<^verbatim>\<open>v[i] = x\<close>: defined inside the vector only.\<close>

definition vec_at :: "'a list \<Rightarrow> int \<Rightarrow> error + 'a" where
  "vec_at v i = (if 0 \<le> i \<and> i < int (length v) then Inr (v ! nat i) else Inl OutOfRange)"

definition vec_back :: "'a list \<Rightarrow> error + 'a" where
  "vec_back v = (if v = [] then Inl OutOfRange else Inr (last v))"

definition vec_set :: "'a list \<Rightarrow> int \<Rightarrow> 'a \<Rightarrow> error + 'a list" where
  "vec_set v i x =
     (if 0 \<le> i \<and> i < int (length v) then Inr (v[nat i := x]) else Inl OutOfRange)"

text \<open>
  \<^verbatim>\<open>std::accumulate(v.cbegin() + l, v.cbegin() + r, init, std::multiplies<int>())\<close>:
  the range must lie inside the vector, with \<open>l \<le> r\<close>.
\<close>

definition std_accumulate :: "int32 list \<Rightarrow> int \<Rightarrow> int \<Rightarrow> int32 \<Rightarrow> error + int32" where
  "std_accumulate v l r init =
     (if 0 \<le> l \<and> l \<le> r \<and> r \<le> int (length v)
      then Inr (foldl (\<lambda>acc x. acc * x) init (take (nat (r - l)) (drop (nat l) v)))
      else Inl OutOfRange)"

text \<open>
  \<^verbatim>\<open>std::copy(src.cbegin() + l, src.cbegin() + r, dst.begin() + d)\<close>: source range
  inside \<open>src\<close>, destination range inside \<open>dst\<close>.
\<close>

definition std_copy :: "'a list \<Rightarrow> int \<Rightarrow> int \<Rightarrow> 'a list \<Rightarrow> int \<Rightarrow> error + 'a list" where
  "std_copy src l r dst d =
     (if 0 \<le> l \<and> l \<le> r \<and> r \<le> int (length src) \<and> 0 \<le> d \<and> d + (r - l) \<le> int (length dst)
      then Inr (take (nat d) dst @ take (nat (r - l)) (drop (nat l) src)
                @ drop (nat (d + (r - l))) dst)
      else Inl OutOfRange)"

subsection \<open>Tensor descriptors\<close>

text \<open>
  A cuDNN tensor descriptor after one of its setters: element type tag, number of axes,
  extents and strides (section 3 of the specification).
\<close>

record cudnnTensorStruct =
  dataType :: cudnnDataType_t
  nbDims :: nat
  dimA :: "int32 list"
  strideA :: "int32 list"

text \<open>A handle made by \<^verbatim>\<open>cudnnCreateTensorDescriptor\<close> holds nothing until a setter runs.\<close>

type_synonym cudnnTensorDescriptor_t = "cudnnTensorStruct option"

text \<open>
  Modelled from the spec: \<^verbatim>\<open>GetCudnnTensorFormat\<close> is declared outside the sources;
  each of the two layouts has its cuDNN format.
\<close>

fun GetCudnnTensorFormat :: "StorageOrder \<Rightarrow> cudnnTensorFormat_t" where
  "GetCudnnTensorFormat NHWC = CUDNN_TENSOR_NHWC"
| "GetCudnnTensorFormat NCHW = CUDNN_TENSOR_NCHW"

text \<open>
  Modelled from the spec: the two cuDNN setters belong to an external library. Section
  4.1 gives the strides of a four-axis descriptor: row-major for channel-second
  (stride(W)=1, stride(H)=W, stride(C)=H*W, stride(N)=C*H*W), and for channel-last
  stride(C)=1, stride(W)=C, stride(H)=W*C, stride(N)=H*W*C. The axes are always listed
  in the order N, C, H, W, and the products are products of \<^verbatim>\<open>int\<close>. The setters are
  taken to accept their arguments.
\<close>

definition cudnnSetTensor4dDescriptor ::
  "cudnnTensorFormat_t \<Rightarrow> cudnnDataType_t \<Rightarrow> int32 \<Rightarrow> int32 \<Rightarrow> int32 \<Rightarrow> int32 \<Rightarrow>
   cudnnTensorStruct" where
  "cudnnSetTensor4dDescriptor format data_type n c h w =
     \<lparr>dataType = data_type, nbDims = 4, dimA = [n, c, h, w],
      strideA = (case format of
                   CUDNN_TENSOR_NCHW \<Rightarrow> [c * h * w, h * w, w, 1]
                 | CUDNN_TENSOR_NHWC \<Rightarrow> [h * w * c, 1, w * c, c])\<rparr>"

definition cudnnSetTensorNdDescriptor ::
  "cudnnDataType_t \<Rightarrow> nat \<Rightarrow> int32 list \<Rightarrow> int32 list \<Rightarrow> cudnnTensorStruct" where
  "cudnnSetTensorNdDescriptor data_type nb dims strides =
     \<lparr>dataType = data_type, nbDims = nb, dimA = dims, strideA = strides\<rparr>"

section \<open>\<^verbatim>\<open>CuDNNOrderSwithOpBase::SetTensorDescriptor\<close>\<close>

text \<open>
  Lines 31 to 64. The descriptor handle is written only by the setter in the last line
  of each branch; the function returns the new content of the handle, or the failure met
  before the setter was reached.
\<close>

definition SetTensorDescriptor ::
  "cudnnDataType_t \<Rightarrow> StorageOrder \<Rightarrow> int32 list \<Rightarrow> error + cudnnTensorStruct" where
  "SetTensorDescriptor data_type order data_dims =
    (let ndim = int (length data_dims) in
     bind_err (vec_at data_dims 0) (\<lambda>N.
     bind_err (if order = NCHW then vec_at data_dims 1 else vec_back data_dims) (\<lambda>C.
     if ndim = 3 then
       (let H = 1 in
        bind_err (if order = NCHW then vec_at data_dims 2 else vec_at data_dims 1) (\<lambda>W.
        Inr (cudnnSetTensor4dDescriptor (GetCudnnTensorFormat order) data_type N C H W)))
     else if ndim = 4 then
        bind_err (if order = NCHW then vec_at data_dims 2 else vec_at data_dims 1) (\<lambda>H.
        bind_err (if order = NCHW then vec_at data_dims 3 else vec_at data_dims 2) (\<lambda>W.
        Inr (cudnnSetTensor4dDescriptor (GetCudnnTensorFormat order) data_type N C H W)))
     else
        bind_err (if order = NCHW then vec_at data_dims 2 else vec_at data_dims 1) (\<lambda>H.
        bind_err (if order = NCHW then vec_at data_dims 3 else vec_at data_dims 2) (\<lambda>W.
        (let l_iter = (if order = NCHW then 4 else 3);
             r_iter = (if order = NCHW then ndim else ndim - 1) in
         bind_err (std_accumulate data_dims l_iter r_iter 1) (\<lambda>D.
         (let dims = [N, C, H, W, D];
              strides = (if order = NCHW
                         then [C * H * W * D, H * W * D, W * D, D, 1]
                         else [C * H * W * D, 1, W * D * C, D * C, C]) in
          Inr (cudnnSetTensorNdDescriptor data_type 5 dims strides)))))))))"

section \<open>Tensors and the transform primitive\<close>

text \<open>
  A tensor: element type tag, extents, and its storage as a list of cells. The extents
  are kept as the \<^verbatim>\<open>int\<close> vector that line 89 and line 130 build from them.
\<close>

record 'a Tensor =
  meta :: TypeMeta
  sizes :: "int32 list"
  data :: "'a list"

definition numel :: "int32 list \<Rightarrow> nat" where
  "numel ds = prod_list (map (\<lambda>d. nat (sint d)) ds)"

text \<open>\<^verbatim>\<open>X.dim32(i)\<close>, as a function of the extents \<^verbatim>\<open>X.sizes()\<close> of the tensor.\<close>

definition dim32 :: "int32 list \<Rightarrow> int \<Rightarrow> error + int32" where
  "dim32 X_sizes i = vec_at X_sizes i"

text \<open>\<^verbatim>\<open>Y->Resize(dims)\<close> sets the extents; storage is dealt with by \<^verbatim>\<open>mutable_data\<close>.\<close>

definition Resize :: "'a Tensor \<Rightarrow> int32 list \<Rightarrow> 'a Tensor" where
  "Resize Y dims = Y\<lparr>sizes := dims\<rparr>"

text \<open>
  Modelled from the spec: \<^verbatim>\<open>Y->mutable_data<T>()\<close> belongs to the tensor abstraction,
  which is not among the sources. Section 6: storage is reallocated only if the requested
  size differs from the current one. New storage holds \<open>uninit\<close> in every cell.
\<close>

definition mutable_data :: "T \<Rightarrow> 'a \<Rightarrow> 'a Tensor \<Rightarrow> 'a Tensor" where
  "mutable_data t uninit Y =
     Y\<lparr>meta := TypeMeta_Make t,
       data := (if meta Y = TypeMeta_Make t \<and> length (data Y) = numel (sizes Y)
                then data Y else replicate (numel (sizes Y)) uninit)\<rparr>"

text \<open>All index tuples below the given extents, the last axis running fastest.\<close>

fun multi_indices :: "nat list \<Rightarrow> nat list list" where
  "multi_indices [] = [[]]"
| "multi_indices (d # ds) = concat (map (\<lambda>i. map ((#) i) (multi_indices ds)) [0..<d])"

text \<open>The linear offset of an index tuple under a stride vector.\<close>

fun offset :: "int list \<Rightarrow> nat list \<Rightarrow> int" where
  "offset (s # ss) (i # is) = s * int i + offset ss is"
| "offset _ _ = 0"

definition in_buffer :: "int \<Rightarrow> 'a list \<Rightarrow> bool" where
  "in_buffer k buf = (0 \<le> k \<and> k < int (length buf))"

text \<open>
  Modelled from the spec: \<^verbatim>\<open>cudnnTransformTensor\<close> with scale 1 and bias 0 is an
  external primitive. Section 6: an element-wise copy honouring the extents and strides
  of the two descriptors, which fails loudly on a mismatch of descriptors or buffers.
  \<open>data_type\<close> is the element type of the cells of both buffers, the \<^verbatim>\<open>T\<close> of
  \<^verbatim>\<open>data<T>()\<close> and \<^verbatim>\<open>mutable_data<T>()\<close>. For every index tuple below the common
  extents, the cell of the destination at the destination offset receives the cell of
  the source at the source offset.
\<close>

definition cudnnTransformTensor ::
  "cudnnDataType_t \<Rightarrow> cudnnTensorDescriptor_t \<Rightarrow> 'a list \<Rightarrow> cudnnTensorDescriptor_t \<Rightarrow>
   'a list \<Rightarrow> error + 'a list"
  where
  "cudnnTransformTensor data_type xDesc x yDesc y =
    (case xDesc of None \<Rightarrow> Inl TransformFailure | Some dx \<Rightarrow>
     (case yDesc of None \<Rightarrow> Inl TransformFailure | Some dy \<Rightarrow>
      if dataType dx \<noteq> data_type \<or> dataType dy \<noteq> data_type
         \<or> nbDims dx \<noteq> nbDims dy \<or> dimA dx \<noteq> dimA dy
      then Inl TransformFailure
      else
        (let idxs = multi_indices (map (\<lambda>d. nat (sint d)) (dimA dx));
             sx = map sint (strideA dx);
             sy = map sint (strideA dy) in
         if list_all (\<lambda>i. in_buffer (offset sx i) x \<and> in_buffer (offset sy i) y) idxs
         then Inr (fold (\<lambda>i buf. buf[nat (offset sy i) := x ! nat (offset sx i)]) idxs y)
         else Inl TransformFailure)))"

section \<open>The two operators\<close>

text \<open>
  The members of \<^verbatim>\<open>CuDNNOrderSwithOpBase\<close>, their names without the final underscore:
  the two descriptor handles and the cached input extents. The constructor creates the
  handles and leaves the cache empty.
\<close>

record OpState =
  X_desc :: cudnnTensorDescriptor_t
  Y_desc :: cudnnTensorDescriptor_t
  cached_X_dims :: "int32 list"

definition CuDNNOrderSwithOpBase :: OpState where
  "CuDNNOrderSwithOpBase = \<lparr>X_desc = None, Y_desc = None, cached_X_dims = []\<rparr>"

subsection \<open>\<^verbatim>\<open>CuDNNNHWC2NCHWOp\<close>\<close>

text \<open>Lines 86 to 93: the extents of the output, from the extents \<^verbatim>\<open>X.sizes()\<close> of the input.\<close>

definition NHWC2NCHW_Y_dims :: "int32 list \<Rightarrow> error + int32 list" where
  "NHWC2NCHW_Y_dims X_sizes =
    (let ndim = int (length X_sizes) in
     bind_err (dim32 X_sizes 0) (\<lambda>N.
     bind_err (dim32 X_sizes (ndim - 1)) (\<lambda>C.
     (let X_dims = X_sizes;
          Y_dims = replicate (nat ndim) 0 in
      bind_err (vec_set Y_dims 0 N) (\<lambda>Y_dims.
      bind_err (vec_set Y_dims 1 C) (\<lambda>Y_dims.
      std_copy X_dims 1 (ndim - 1) Y_dims 2))))))"

text \<open>
  Lines 83 to 111. The result is paired with the members of the operator and the output
  tensor as they are when the call ends, also when it ends in a failure.
\<close>

definition NHWC2NCHW_DoRunWithType ::
  "T \<Rightarrow> 'a \<Rightarrow> 'a Tensor \<Rightarrow> OpState \<times> 'a Tensor \<Rightarrow> (error + bool) \<times> OpState \<times> 'a Tensor"
  where
  "NHWC2NCHW_DoRunWithType t uninit X s =
    (let (st, Y) = s in
     case NHWC2NCHW_Y_dims (sizes X) of
       Inl e \<Rightarrow> (Inl e, st, Y)
     | Inr Y_dims \<Rightarrow>
        (let X_dims = sizes X;
             Y = Resize Y Y_dims in
         case (if cached_X_dims st \<noteq> X_dims then
                 (let st = st\<lparr>cached_X_dims := X_dims\<rparr> in
                  case SetTensorDescriptor (cudnnTypeWrapper_type t) NHWC X_dims of
                    Inl e \<Rightarrow> (Inl e, st)
                  | Inr xd \<Rightarrow>
                     (let st = st\<lparr>X_desc := Some xd\<rparr> in
                      case SetTensorDescriptor (cudnnTypeWrapper_type t) NCHW Y_dims of
                        Inl e \<Rightarrow> (Inl e, st)
                      | Inr yd \<Rightarrow> (Inr (), st\<lparr>Y_desc := Some yd\<rparr>)))
               else (Inr (), st)) of
           (Inl e, st) \<Rightarrow> (Inl e, st, Y)
         | (Inr _, st) \<Rightarrow>
            (let Y = mutable_data t uninit Y in
             case cudnnTransformTensor (cudnnTypeWrapper_type t)
                    (X_desc st) (data X) (Y_desc st) (data Y) of
               Inl e \<Rightarrow> (Inl e, st, Y)
             | Inr buf \<Rightarrow> (Inr True, st, Y\<lparr>data := buf\<rparr>))))"

text \<open>
  Modelled from the spec: \<^verbatim>\<open>DispatchHelper\<close>, which lines 78 to 80 call, is not among
  the sources. The supported element types are 32-bit and 16-bit float, each dispatched
  to its instantiation; any other element type fails with \<open>UnsupportedTypeError\<close>.
\<close>

definition NHWC2NCHW_RunOnDevice ::
  "'a \<Rightarrow> 'a Tensor \<Rightarrow> OpState \<times> 'a Tensor \<Rightarrow> (error + bool) \<times> OpState \<times> 'a Tensor" where
  "NHWC2NCHW_RunOnDevice uninit X s =
    (if meta X = meta_float then NHWC2NCHW_DoRunWithType T_float uninit X s
     else if meta X = meta_Half then NHWC2NCHW_DoRunWithType T_Half uninit X s
     else (Inl UnsupportedTypeError, s))"

subsection \<open>\<^verbatim>\<open>CuDNNNCHW2NHWCOp\<close>\<close>

text \<open>Lines 127 to 134: the extents of the output, from the extents of the input.\<close>

definition NCHW2NHWC_Y_dims :: "int32 list \<Rightarrow> error + int32 list" where
  "NCHW2NHWC_Y_dims X_sizes =
    (let ndim = int (length X_sizes) in
     bind_err (dim32 X_sizes 0) (\<lambda>N.
     bind_err (dim32 X_sizes 1) (\<lambda>C.
     (let X_dims = X_sizes;
          Y_dims = replicate (nat ndim) 0 in
      bind_err (vec_set Y_dims 0 N) (\<lambda>Y_dims.
      bind_err (vec_set Y_dims (ndim - 1) C) (\<lambda>Y_dims.
      std_copy X_dims 2 ndim Y_dims 1))))))"

text \<open>Lines 124 to 152.\<close>

definition NCHW2NHWC_DoRunWithType ::
  "T \<Rightarrow> 'a \<Rightarrow> 'a Tensor \<Rightarrow> OpState \<times> 'a Tensor \<Rightarrow> (error + bool) \<times> OpState \<times> 'a Tensor"
  where
  "NCHW2NHWC_DoRunWithType t uninit X s =
    (let (st, Y) = s in
     case NCHW2NHWC_Y_dims (sizes X) of
       Inl e \<Rightarrow> (Inl e, st, Y)
     | Inr Y_dims \<Rightarrow>
        (let X_dims = sizes X;
             Y = Resize Y Y_dims in
         case (if cached_X_dims st \<noteq> X_dims then
                 (let st = st\<lparr>cached_X_dims := X_dims\<rparr> in
                  case SetTensorDescriptor (cudnnTypeWrapper_type t) NCHW X_dims of
                    Inl e \<Rightarrow> (Inl e, st)
                  | Inr xd \<Rightarrow>
                     (let st = st\<lparr>X_desc := Some xd\<rparr> in
                      case SetTensorDescriptor (cudnnTypeWrapper_type t) NHWC Y_dims of
                        Inl e \<Rightarrow> (Inl e, st)
                      | Inr yd \<Rightarrow> (Inr (), st\<lparr>Y_desc := Some yd\<rparr>)))
               else (Inr (), st)) of
           (Inl e, st) \<Rightarrow> (Inl e, st, Y)
         | (Inr _, st) \<Rightarrow>
            (let Y = mutable_data t uninit Y in
             case cudnnTransformTensor (cudnnTypeWrapper_type t)
                    (X_desc st) (data X) (Y_desc st) (data Y) of
               Inl e \<Rightarrow> (Inl e, st, Y)
             | Inr buf \<Rightarrow> (Inr True, st, Y\<lparr>data := buf\<rparr>))))"

text \<open>
  Modelled from the spec: lines 119 to 121, with \<^verbatim>\<open>DispatchHelper\<close> as for the other
  operator.
\<close>

definition NCHW2NHWC_RunOnDevice ::
  "'a \<Rightarrow> 'a Tensor \<Rightarrow> OpState \<times> 'a Tensor \<Rightarrow> (error + bool) \<times> OpState \<times> 'a Tensor" where
  "NCHW2NHWC_RunOnDevice uninit X s =
    (if meta X = meta_float then NCHW2NHWC_DoRunWithType T_float uninit X s
     else if meta X = meta_Half then NCHW2NHWC_DoRunWithType T_Half uninit X s
     else (Inl UnsupportedTypeError, s))"

section \<open>Consistency of the descriptor cache\<close>

text \<open>
  The two handles hold what \<open>SetTensorDescriptor\<close> derives, for the element type tag
  \<open>dt\<close>, from the input extents \<open>X_dims\<close> and from the output extents computed
  from them.
\<close>

definition descriptors_derived ::
  "cudnnDataType_t \<Rightarrow> StorageOrder \<Rightarrow> StorageOrder \<Rightarrow> int32 list \<Rightarrow> error + int32 list \<Rightarrow>
   OpState \<Rightarrow> bool" where
  "descriptors_derived dt order_X order_Y X_dims Y st =
     (case Y of
        Inl e \<Rightarrow> False
      | Inr Y_dims \<Rightarrow>
          (case X_desc st of
             None \<Rightarrow> False
           | Some xd \<Rightarrow> SetTensorDescriptor dt order_X X_dims = Inr xd)
        \<and> (case Y_desc st of
             None \<Rightarrow> False
           | Some yd \<Rightarrow> SetTensorDescriptor dt order_Y Y_dims = Inr yd))"

text \<open>
  The invariant of an operator instance that is only given inputs of one element type:
  when the cache holds extents of rank at least 3, the descriptors are the ones derived
  from it for that element type. It holds after construction and after every such call.
\<close>

definition NHWC2NCHW_cache_ok :: "cudnnDataType_t \<Rightarrow> OpState \<Rightarrow> bool" where
  "NHWC2NCHW_cache_ok dt st =
     (3 \<le> length (cached_X_dims st) \<longrightarrow>
        descriptors_derived dt NHWC NCHW (cached_X_dims st)
          (NHWC2NCHW_Y_dims (cached_X_dims st)) st)"

definition NCHW2NHWC_cache_ok :: "cudnnDataType_t \<Rightarrow> OpState \<Rightarrow> bool" where
  "NCHW2NHWC_cache_ok dt st =
     (3 \<le> length (cached_X_dims st) \<longrightarrow>
        descriptors_derived dt NCHW NHWC (cached_X_dims st)
          (NCHW2NHWC_Y_dims (cached_X_dims st)) st)"

section \<open>Layouts\<close>

text \<open>
  The number written with the digits \<open>as\<close> in the mixed radix \<open>As\<close>, least
  significant digit first.
\<close>

fun mixed_radix :: "nat list \<Rightarrow> nat list \<Rightarrow> nat" where
  "mixed_radix (A # As) (a # as) = a + A * mixed_radix As as"
| "mixed_radix _ _ = 0"

text \<open>
  A stride vector lays the index tuples below the extents out over a buffer of \<open>n\<close>
  cells: there are \<open>n\<close> tuples, each has its offset inside the buffer, and no two share
  one.
\<close>

definition layout_ok :: "int32 list \<Rightarrow> int32 list \<Rightarrow> nat \<Rightarrow> bool" where
  "layout_ok dims strides n =
     (let idxs = multi_indices (map (\<lambda>d. nat (sint d)) dims);
          f = offset (map sint strides) in
      length idxs = n
      \<and> (\<forall>i \<in> set idxs. 0 \<le> f i \<and> f i < int n)
      \<and> inj_on f (set idxs))"

section \<open>The two halves of a call\<close>

text \<open>
  Lines 95 to 101 and 136 to 142, which differ only in the two storage orders, as one
  function: on a change of the input extents the cache is written first and then each
  descriptor is derived in turn.
\<close>

definition refresh_descriptors ::
  "T \<Rightarrow> StorageOrder \<Rightarrow> StorageOrder \<Rightarrow> int32 list \<Rightarrow> int32 list \<Rightarrow> OpState \<Rightarrow>
   (error + unit) \<times> OpState" where
  "refresh_descriptors t order_X order_Y X_dims Y_dims st =
     (if cached_X_dims st \<noteq> X_dims then
        (let st = st\<lparr>cached_X_dims := X_dims\<rparr> in
         case SetTensorDescriptor (cudnnTypeWrapper_type t) order_X X_dims of
           Inl e \<Rightarrow> (Inl e, st)
         | Inr xd \<Rightarrow>
            (let st = st\<lparr>X_desc := Some xd\<rparr> in
             case SetTensorDescriptor (cudnnTypeWrapper_type t) order_Y Y_dims of
               Inl e \<Rightarrow> (Inl e, st)
             | Inr yd \<Rightarrow> (Inr (), st\<lparr>Y_desc := Some yd\<rparr>)))
      else (Inr (), st))"

text \<open>Lines 102 to 110 and 143 to 151: the transform into the storage of the output.\<close>

definition transform_into ::
  "T \<Rightarrow> 'a \<Rightarrow> 'a Tensor \<Rightarrow> OpState \<Rightarrow> 'a Tensor \<Rightarrow> (error + bool) \<times> OpState \<times> 'a Tensor"
  where
  "transform_into t uninit X st Y =
     (let Y = mutable_data t uninit Y in
      case cudnnTransformTensor (cudnnTypeWrapper_type t)
                    (X_desc st) (data X) (Y_desc st) (data Y) of
        Inl e \<Rightarrow> (Inl e, st, Y)
      | Inr buf \<Rightarrow> (Inr True, st, Y\<lparr>data := buf\<rparr>))"

section \<open>Output extents\<close>

lemma split_ends:
  assumes "2 \<le> length xs"
  shows "\<exists>n m c. xs = n # m @ [c]"
proof -
  from assms obtain n ys where xs: "xs = n # ys" by (cases xs) auto
  with assms have "ys \<noteq> []" by auto
  then obtain m c where "ys = m @ [c]" by (metis rev_exhaust)
  with xs show ?thesis by blast
qed

lemma split_rank3:
  assumes "3 \<le> length xs"
  shows "\<exists>n h m c. xs = n # h # m @ [c]"
proof -
  from assms obtain n m0 c where s: "xs = n # m0 @ [c]"
    using split_ends [of xs] by auto
  with assms obtain h m where "m0 = h # m" by (cases m0) auto
  with s show ?thesis by auto
qed

lemma NHWC2NCHW_Y_dims_ends: "NHWC2NCHW_Y_dims (n # m @ [c]) = Inr (n # c # m)"
  by (simp add: NHWC2NCHW_Y_dims_def dim32_def vec_at_def vec_set_def std_copy_def bind_err_def
      Let_def nth_append nat_add_distrib replicate_add)

lemma replicate_update_last: "(replicate (Suc k) z)[k := c] = replicate k z @ [c]"
  by (induction k) simp_all

lemma NCHW2NHWC_Y_dims_front: "NCHW2NHWC_Y_dims (n # c # m) = Inr (n # m @ [c])"
proof -
  let ?k = "length m" and ?X = "n # c # m"
  have nd: "nat (int (length ?X)) = Suc (Suc ?k)"
    and nd1: "int (length ?X) - 1 = int (Suc ?k)"
    by simp_all
  have v0: "vec_at ?X 0 = Inr n" and v1: "vec_at ?X 1 = Inr c"
    by (simp_all add: vec_at_def)
  have y0: "vec_set (replicate (Suc (Suc ?k)) 0) 0 n = Inr (n # replicate (Suc ?k) 0)"
    by (simp add: vec_set_def)
  have y1: "vec_set (n # replicate (Suc ?k) 0) (int (Suc ?k)) c = Inr (n # replicate ?k 0 @ [c])"
  proof -
    have "nat (int (Suc ?k)) = Suc ?k" by (rule nat_int)
    then show ?thesis
      by (simp add: vec_set_def replicate_update_last del: replicate_Suc of_nat_Suc)
  qed
  have cp: "std_copy ?X 2 (int (length ?X)) (n # replicate ?k 0 @ [c]) 1 = Inr (n # m @ [c])"
    by (simp add: std_copy_def nat_add_distrib)
  show ?thesis
    unfolding NCHW2NHWC_Y_dims_def Let_def dim32_def bind_err_def nd nd1 v0 v1 sum.case y0 y1 cp
    by (rule refl)
qed

lemma nth_slice_mid: "map ((!) (n # m @ [c])) [1..<length (n # m @ [c]) - 1] = m"
  by (rule nth_equalityI) (auto simp: nth_append simp del: upt_Suc)

lemma nth_slice_tail: "map ((!) (n # h # m)) [2..<length (n # h # m)] = m"
  by (rule nth_equalityI) (auto simp del: upt_Suc)

text \<open>
  Claim C2. For an input of rank \<open>r \<ge> 3\<close> the output extents of NHWC2NCHW are
  \<open>[dims[0], dims[r-1], dims[1], ..., dims[r-2]]\<close> and those of NCHW2NHWC are
  \<open>[dims[0], dims[2], ..., dims[r-1], dims[1]]\<close>: the batch extent stays first and the
  spatial extents keep their order.
\<close>

theorem Y_dims_relocates_channel:
  assumes "3 \<le> length dims"
  shows "NHWC2NCHW_Y_dims dims =
           Inr (dims ! 0 # dims ! (length dims - 1) # map ((!) dims) [1..<length dims - 1])
       \<and> NCHW2NHWC_Y_dims dims =
           Inr (dims ! 0 # map ((!) dims) [2..<length dims] @ [dims ! 1])"
proof -
  from assms obtain n h m c where s: "dims = n # h # m @ [c]"
    using split_rank3 [of dims] by auto
  have s': "dims = n # (h # m) @ [c]" by (simp add: s)
  have a: "NHWC2NCHW_Y_dims dims = Inr (n # c # h # m)"
    unfolding s' by (rule NHWC2NCHW_Y_dims_ends)
  have b: "NCHW2NHWC_Y_dims dims = Inr (n # (m @ [c]) @ [h])"
    unfolding s by (rule NCHW2NHWC_Y_dims_front)
  have c1: "map ((!) dims) [1..<length dims - 1] = h # m"
    unfolding s' by (rule nth_slice_mid)
  have c2: "map ((!) dims) [2..<length dims] = m @ [c]"
    unfolding s by (rule nth_slice_tail)
  have e: "dims ! 0 = n" "dims ! 1 = h" "dims ! (length dims - 1) = c"
    by (simp_all add: s nth_append)
  show ?thesis
    unfolding a b c1 c2 e by simp
qed

theorem Y_dims_relocates_channel_witness:
  "3 \<le> length [2, 3, 5, 4 :: int32]
   \<and> NHWC2NCHW_Y_dims [2, 3, 5, 4] = Inr [2, 4, 3, 5]
   \<and> NCHW2NHWC_Y_dims [2, 3, 5, 4] = Inr [2, 5, 4, 3]"
  using Y_dims_relocates_channel [of "[2, 3, 5, 4]"]
  by (simp add: upt_conv_Cons)

lemma numel_move_last: "numel (n # c # m) = numel (n # m @ [c])"
  by (simp add: numel_def)

lemma prod_list_move_last:
  "prod_list (n # c # m) = prod_list (n # m @ [c :: 'a :: comm_monoid_mult])"
  by (simp add: mult.commute mult.left_commute)

text \<open>
  Claim C3. For an input of rank at least 3 and both directions, the output extents are
  as many as the input extents and have the same product: the 32-bit product of the
  source, and also the element count of the tensor.
\<close>

theorem Y_dims_preserves_count:
  assumes "3 \<le> length dims"
  shows "(\<exists>Y_dims. NHWC2NCHW_Y_dims dims = Inr Y_dims
            \<and> length Y_dims = length dims
            \<and> prod_list Y_dims = prod_list dims
            \<and> numel Y_dims = numel dims)
       \<and> (\<exists>Y_dims. NCHW2NHWC_Y_dims dims = Inr Y_dims
            \<and> length Y_dims = length dims
            \<and> prod_list Y_dims = prod_list dims
            \<and> numel Y_dims = numel dims)"
proof -
  from assms obtain n h m c where s: "dims = n # h # m @ [c]"
    using split_rank3 [of dims] by auto
  have s': "dims = n # (h # m) @ [c]" by (simp add: s)
  have a: "NHWC2NCHW_Y_dims dims = Inr (n # c # h # m)"
    unfolding s' by (rule NHWC2NCHW_Y_dims_ends)
  have b: "NCHW2NHWC_Y_dims dims = Inr (n # (m @ [c]) @ [h])"
    unfolding s by (rule NCHW2NHWC_Y_dims_front)
  have "length (n # c # h # m) = length dims" by (simp add: s)
  moreover have "prod_list (n # c # h # m) = prod_list dims"
    unfolding s' by (rule prod_list_move_last)
  moreover have "numel (n # c # h # m) = numel dims"
    unfolding s' by (rule numel_move_last)
  moreover have "length (n # (m @ [c]) @ [h]) = length dims" by (simp add: s)
  moreover have "prod_list (n # (m @ [c]) @ [h]) = prod_list dims"
    unfolding s by (rule prod_list_move_last [symmetric])
  moreover have "numel (n # (m @ [c]) @ [h]) = numel dims"
    unfolding s by (rule numel_move_last [symmetric])
  ultimately show ?thesis
    unfolding a b by blast
qed

theorem Y_dims_preserves_count_witness:
  "3 \<le> length [2, 3, 5, 4 :: int32]
   \<and> (\<exists>Y_dims. NHWC2NCHW_Y_dims [2, 3, 5, 4] = Inr Y_dims
         \<and> length Y_dims = length [2, 3, 5, 4 :: int32]
         \<and> prod_list Y_dims = 120 \<and> numel Y_dims = 120)
   \<and> (\<exists>Y_dims. NCHW2NHWC_Y_dims [2, 3, 5, 4] = Inr Y_dims
         \<and> length Y_dims = length [2, 3, 5, 4 :: int32]
         \<and> prod_list Y_dims = 120 \<and> numel Y_dims = 120)"
  using Y_dims_preserves_count [of "[2, 3, 5, 4]"]
  by (simp add: numel_def)

section \<open>Descriptors\<close>

lemma foldl_mult_prod_list: "foldl (\<lambda>acc x. acc * x) a xs = (a::int32) * prod_list xs"
  by (induction xs arbitrary: a) (simp_all add: mult.assoc)

lemma split_rank5:
  assumes "5 \<le> length (xs :: 'a list)"
  shows "\<exists>n a b c r. xs = n # a # b # c # r \<and> r \<noteq> []"
proof -
  from assms obtain n x1 where 1: "xs = n # x1" by (cases xs) auto
  with assms obtain a x2 where 2: "x1 = a # x2" by (cases x1) auto
  with 1 assms obtain b x3 where 3: "x2 = b # x3" by (cases x2) auto
  with 1 2 assms obtain c r where 4: "x3 = c # r" by (cases x3) auto
  with 1 2 3 assms have "r \<noteq> []" by auto
  with 1 2 3 4 show ?thesis by blast
qed

lemma SetTensorDescriptor_NCHW_rank5:
  assumes r: "r \<noteq> []"
  shows "SetTensorDescriptor data_type NCHW (n # c # h # w # r) =
          Inr \<lparr>dataType = data_type, nbDims = 5, dimA = [n, c, h, w, prod_list r],
               strideA = [c * h * w * prod_list r, h * w * prod_list r, w * prod_list r,
                          prod_list r, 1]\<rparr>"
  using r
  by (simp add: SetTensorDescriptor_def vec_at_def std_accumulate_def bind_err_def
      foldl_mult_prod_list cudnnSetTensorNdDescriptor_def)

lemma SetTensorDescriptor_NHWC_rank5:
  assumes r: "r \<noteq> []"
  shows "SetTensorDescriptor data_type NHWC (n # h # w # r @ [c]) =
          Inr \<lparr>dataType = data_type, nbDims = 5, dimA = [n, c, h, w, prod_list r],
               strideA = [c * h * w * prod_list r, 1, w * prod_list r * c,
                          prod_list r * c, c]\<rparr>"
  using r
  by (simp add: SetTensorDescriptor_def vec_at_def vec_back_def std_accumulate_def bind_err_def
      foldl_mult_prod_list cudnnSetTensorNdDescriptor_def)

lemma SetTensorDescriptor_NCHW_rank4:
  "SetTensorDescriptor data_type NCHW [n, c, h, w] =
     Inr \<lparr>dataType = data_type, nbDims = 4, dimA = [n, c, h, w],
          strideA = [c * h * w, h * w, w, 1]\<rparr>"
  by (simp add: SetTensorDescriptor_def vec_at_def bind_err_def cudnnSetTensor4dDescriptor_def)

lemma SetTensorDescriptor_NHWC_rank4:
  "SetTensorDescriptor data_type NHWC [n, h, w, c] =
     Inr \<lparr>dataType = data_type, nbDims = 4, dimA = [n, c, h, w],
          strideA = [h * w * c, 1, w * c, c]\<rparr>"
  by (simp add: SetTensorDescriptor_def vec_at_def vec_back_def bind_err_def
      cudnnSetTensor4dDescriptor_def)

lemma SetTensorDescriptor_NCHW_rank3:
  "SetTensorDescriptor data_type NCHW [n, c, w] =
     Inr \<lparr>dataType = data_type, nbDims = 4, dimA = [n, c, 1, w],
          strideA = [c * 1 * w, 1 * w, w, 1]\<rparr>"
  by (simp add: SetTensorDescriptor_def vec_at_def bind_err_def cudnnSetTensor4dDescriptor_def)

lemma SetTensorDescriptor_NHWC_rank3:
  "SetTensorDescriptor data_type NHWC [n, w, c] =
     Inr \<lparr>dataType = data_type, nbDims = 4, dimA = [n, c, 1, w],
          strideA = [1 * w * c, 1, w * c, c]\<rparr>"
  by (simp add: SetTensorDescriptor_def vec_at_def vec_back_def bind_err_def
      cudnnSetTensor4dDescriptor_def)

lemma nth_slice_from4:
  "map ((!) (n # a # b # c # r)) [4..<length (n # a # b # c # r)] = r"
  by (rule nth_equalityI) (auto simp del: upt_Suc)

lemma nth_slice_mid3:
  "map ((!) (n # a # b # m @ [l])) [3..<length (n # a # b # m @ [l]) - 1] = m"
  by (rule nth_equalityI) (auto simp: nth_append simp del: upt_Suc)

text \<open>
  Claim C1. For rank \<open>r \<ge> 5\<close> the descriptor has the five axes N, C, H, W, D, with
  \<open>N = dims[0]\<close>; for NCHW \<open>C = dims[1]\<close>, \<open>H = dims[2]\<close>, \<open>W = dims[3]\<close> and D
  the product of \<open>dims[4..r)\<close>; for NHWC \<open>C = dims[r-1]\<close>, \<open>H = dims[1]\<close>,
  \<open>W = dims[2]\<close> and D the product of \<open>dims[3..r-1)\<close>, with the strides
  stride(N) = C*H*W*D, stride(C) = 1, stride(H) = W*D*C, stride(W) = D*C, stride(D) = C.
  All products are the 32-bit products of the source.
\<close>

theorem SetTensorDescriptor_rank5_collapse:
  assumes "5 \<le> length dims"
  shows "(let r = length dims; N = dims ! 0; C = dims ! 1; H = dims ! 2; W = dims ! 3;
              D = prod_list (map ((!) dims) [4..<r])
          in SetTensorDescriptor data_type NCHW dims =
               Inr \<lparr>dataType = data_type, nbDims = 5, dimA = [N, C, H, W, D],
                    strideA = [C * H * W * D, H * W * D, W * D, D, 1]\<rparr>)
       \<and> (let r = length dims; N = dims ! 0; C = dims ! (r - 1); H = dims ! 1; W = dims ! 2;
              D = prod_list (map ((!) dims) [3..<r - 1])
          in SetTensorDescriptor data_type NHWC dims =
               Inr \<lparr>dataType = data_type, nbDims = 5, dimA = [N, C, H, W, D],
                    strideA = [C * H * W * D, 1, W * D * C, D * C, C]\<rparr>)"
proof -
  from assms obtain n a b c r where d: "dims = n # a # b # c # r" and r: "r \<noteq> []"
    using split_rank5 [of dims] by blast
  obtain m l where cr: "c # r = m @ [l]"
    by (metis rev_exhaust list.distinct(1))
  with r have m: "m \<noteq> []" by (cases m) auto
  have d': "dims = n # a # b # m @ [l]" by (simp add: d cr)
  have tl: "map ((!) dims) [4..<length dims] = r"
    unfolding d by (rule nth_slice_from4)
  have md: "map ((!) dims) [3..<length dims - 1] = m"
    unfolding d' by (rule nth_slice_mid3)
  have e1: "dims ! 0 = n" "dims ! 1 = a" "dims ! 2 = b" "dims ! 3 = c"
    by (simp_all add: d)
  have e2: "dims ! (length dims - 1) = l"
    by (simp add: d' nth_append)
  have A: "SetTensorDescriptor data_type NCHW dims =
             Inr \<lparr>dataType = data_type, nbDims = 5, dimA = [n, a, b, c, prod_list r],
                  strideA = [a * b * c * prod_list r, b * c * prod_list r, c * prod_list r,
                             prod_list r, 1]\<rparr>"
    unfolding d using r by (rule SetTensorDescriptor_NCHW_rank5)
  have B: "SetTensorDescriptor data_type NHWC dims =
             Inr \<lparr>dataType = data_type, nbDims = 5, dimA = [n, l, a, b, prod_list m],
                  strideA = [l * a * b * prod_list m, 1, b * prod_list m * l,
                             prod_list m * l, l]\<rparr>"
    unfolding d' using m by (rule SetTensorDescriptor_NHWC_rank5)
  show ?thesis
    unfolding Let_def tl md e1 e2 A B by simp
qed

theorem SetTensorDescriptor_rank5_collapse_witness:
  "5 \<le> length [2, 3, 5, 2, 7, 4 :: int32]
   \<and> SetTensorDescriptor CUDNN_DATA_FLOAT NCHW [2, 3, 5, 2, 7, 4] =
       Inr \<lparr>dataType = CUDNN_DATA_FLOAT, nbDims = 5, dimA = [2, 3, 5, 2, 28],
            strideA = [840, 280, 56, 28, 1]\<rparr>
   \<and> SetTensorDescriptor CUDNN_DATA_FLOAT NHWC [2, 3, 5, 2, 7, 4] =
       Inr \<lparr>dataType = CUDNN_DATA_FLOAT, nbDims = 5, dimA = [2, 4, 3, 5, 14],
            strideA = [840, 1, 280, 56, 4]\<rparr>"
  using SetTensorDescriptor_rank5_collapse [of "[2, 3, 5, 2, 7, 4]" CUDNN_DATA_FLOAT]
  by (simp add: Let_def upt_conv_Cons)

lemma rank5_example_Y_dims: "NCHW2NHWC_Y_dims [2, 4, 3, 5, 2] = Inr [2, 3, 5, 2, 4]"
  using NCHW2NHWC_Y_dims_front [of 2 4 "[3, 5, 2]"] by simp

lemma rank5_example_X_desc:
  "SetTensorDescriptor CUDNN_DATA_FLOAT NCHW [2, 4, 3, 5, 2] =
     Inr \<lparr>dataType = CUDNN_DATA_FLOAT, nbDims = 5, dimA = [2, 4, 3, 5, 2],
          strideA = [120, 30, 10, 2, 1]\<rparr>"
  using SetTensorDescriptor_NCHW_rank5 [of "[2]" CUDNN_DATA_FLOAT 2 4 3 5] by simp

lemma rank5_example_Y_desc:
  "SetTensorDescriptor CUDNN_DATA_FLOAT NHWC [2, 3, 5, 2, 4] =
     Inr \<lparr>dataType = CUDNN_DATA_FLOAT, nbDims = 5, dimA = [2, 4, 3, 5, 2],
          strideA = [120, 1, 40, 8, 4]\<rparr>"
  using SetTensorDescriptor_NHWC_rank5 [of "[2]" CUDNN_DATA_FLOAT 2 3 5 4] by simp

text \<open>
  Claim C5, as stated, fails. For the input \<open>(N=2, C=4, D1=3, D2=5, D3=2)\<close> the fifth
  extent D of both descriptors is 2, which is D3, and not \<open>D2 * D3 = 10\<close>: D1 and D2
  are the axes H and W.
\<close>

theorem rank5_example_D_counterexample:
  "map_sum id (last \<circ> dimA) (SetTensorDescriptor CUDNN_DATA_FLOAT NCHW [2, 4, 3, 5, 2]) = Inr 2
   \<and> map_sum id (last \<circ> dimA) (SetTensorDescriptor CUDNN_DATA_FLOAT NHWC [2, 3, 5, 2, 4]) = Inr 2
   \<and> (2 :: int32) \<noteq> 5 * 2"
  by (simp add: rank5_example_X_desc rank5_example_Y_desc)

text \<open>
  Claim C5, amended. The input \<open>(N=2, C=4, D1=3, D2=5, D3=2)\<close> converted from
  channel-second to channel-last has the output extents \<open>(2, 3, 5, 2, 4)\<close>; both
  descriptors have the extents \<open>N=2, C=4, H=D1=3, W=D2=5\<close> and the collapsed axis
  \<open>D = D3 = 2\<close>, the product of the spatial extents beyond the first two.
\<close>

theorem rank5_example:
  "NCHW2NHWC_Y_dims [2, 4, 3, 5, 2] = Inr [2, 3, 5, 2, 4]
   \<and> SetTensorDescriptor CUDNN_DATA_FLOAT NCHW [2, 4, 3, 5, 2] =
       Inr \<lparr>dataType = CUDNN_DATA_FLOAT, nbDims = 5, dimA = [2, 4, 3, 5, 2],
            strideA = [120, 30, 10, 2, 1]\<rparr>
   \<and> SetTensorDescriptor CUDNN_DATA_FLOAT NHWC [2, 3, 5, 2, 4] =
       Inr \<lparr>dataType = CUDNN_DATA_FLOAT, nbDims = 5, dimA = [2, 4, 3, 5, 2],
            strideA = [120, 1, 40, 8, 4]\<rparr>"
  by (simp only: rank5_example_Y_dims rank5_example_X_desc rank5_example_Y_desc simp_thms)

text \<open>
  Claim C6. For every rank-3 input the descriptor has the four axes N, C, H, W with
  \<open>H = 1\<close>, and \<open>W = dims[2]\<close> for NCHW, \<open>W = dims[1]\<close> for NHWC. An input of
  extents \<open>(N, 3, 8)\<close> converted from channel-second to channel-last has the output
  extents \<open>(N, 8, 3)\<close>.
\<close>

theorem SetTensorDescriptor_rank3_unit_height:
  assumes "length dims = 3"
  shows "SetTensorDescriptor data_type NCHW dims =
           Inr \<lparr>dataType = data_type, nbDims = 4, dimA = [dims ! 0, dims ! 1, 1, dims ! 2],
                strideA = [dims ! 1 * 1 * dims ! 2, 1 * dims ! 2, dims ! 2, 1]\<rparr>
       \<and> SetTensorDescriptor data_type NHWC dims =
           Inr \<lparr>dataType = data_type, nbDims = 4, dimA = [dims ! 0, dims ! 2, 1, dims ! 1],
                strideA = [1 * dims ! 1 * dims ! 2, 1, dims ! 1 * dims ! 2, dims ! 2]\<rparr>
       \<and> NCHW2NHWC_Y_dims [N, 3, 8] = Inr [N, 8, 3]"
proof -
  from assms obtain n a b where d: "dims = [n, a, b]"
    by (cases dims; cases "tl dims"; cases "tl (tl dims)") auto
  have y: "NCHW2NHWC_Y_dims [N, 3, 8] = Inr [N, 8, 3]"
    using NCHW2NHWC_Y_dims_front [of N 3 "[8]"] by simp
  show ?thesis
    unfolding d by (simp add: y SetTensorDescriptor_NCHW_rank3 SetTensorDescriptor_NHWC_rank3)
qed

theorem SetTensorDescriptor_rank3_unit_height_witness:
  "length [2, 3, 8 :: int32] = 3
   \<and> SetTensorDescriptor CUDNN_DATA_HALF NCHW [2, 3, 8] =
       Inr \<lparr>dataType = CUDNN_DATA_HALF, nbDims = 4, dimA = [2, 3, 1, 8],
            strideA = [24, 8, 8, 1]\<rparr>
   \<and> SetTensorDescriptor CUDNN_DATA_HALF NHWC [2, 3, 8] =
       Inr \<lparr>dataType = CUDNN_DATA_HALF, nbDims = 4, dimA = [2, 8, 1, 3],
            strideA = [24, 1, 24, 8]\<rparr>
   \<and> NCHW2NHWC_Y_dims [2, 3, 8] = Inr [2, 8, 3]"
  using SetTensorDescriptor_rank3_unit_height [of "[2, 3, 8]" CUDNN_DATA_HALF 2]
  by simp

section \<open>Failures\<close>

lemma bind_err_Inl:
  "bind_err m f = Inl e \<Longrightarrow> m = Inl e \<or> (\<exists>x. m = Inr x \<and> f x = Inl e)"
  by (cases m) (simp_all add: bind_err_def)

lemma vec_at_error: "vec_at v i = Inl e \<Longrightarrow> e = OutOfRange"
  by (simp add: vec_at_def split: if_splits)

lemma vec_back_error: "vec_back v = Inl e \<Longrightarrow> e = OutOfRange"
  by (simp add: vec_back_def split: if_splits)

lemma vec_set_error: "vec_set v i x = Inl e \<Longrightarrow> e = OutOfRange"
  by (simp add: vec_set_def split: if_splits)

lemma std_copy_error: "std_copy src l r dst d = Inl e \<Longrightarrow> e = OutOfRange"
  by (simp add: std_copy_def split: if_splits)

lemma std_accumulate_error: "std_accumulate v l r i = Inl e \<Longrightarrow> e = OutOfRange"
  by (simp add: std_accumulate_def split: if_splits)

lemma NHWC2NCHW_Y_dims_error: "NHWC2NCHW_Y_dims dims = Inl e \<Longrightarrow> e = OutOfRange"
  unfolding NHWC2NCHW_Y_dims_def Let_def dim32_def
  by (auto dest!: bind_err_Inl dest: vec_at_error vec_set_error std_copy_error)

lemma NCHW2NHWC_Y_dims_error: "NCHW2NHWC_Y_dims dims = Inl e \<Longrightarrow> e = OutOfRange"
  unfolding NCHW2NHWC_Y_dims_def Let_def dim32_def
  by (auto dest!: bind_err_Inl dest: vec_at_error vec_set_error std_copy_error)

lemma SetTensorDescriptor_error:
  "SetTensorDescriptor dt order dims = Inl e \<Longrightarrow> e = OutOfRange"
  unfolding SetTensorDescriptor_def Let_def
  by (cases order)
     (auto dest!: bind_err_Inl dest: vec_at_error vec_back_error std_accumulate_error
           split: if_splits)

lemma cudnnTransformTensor_error:
  "cudnnTransformTensor dt xd x yd y = Inl e \<Longrightarrow> e = TransformFailure"
  by (simp add: cudnnTransformTensor_def Let_def split: option.splits if_splits)

lemma NHWC2NCHW_DoRunWithType_error:
  "fst (NHWC2NCHW_DoRunWithType t u X s) = Inl e \<Longrightarrow> e = OutOfRange \<or> e = TransformFailure"
  unfolding NHWC2NCHW_DoRunWithType_def Let_def
  by (auto split: prod.splits sum.splits if_splits
      dest: NHWC2NCHW_Y_dims_error SetTensorDescriptor_error cudnnTransformTensor_error)

lemma NCHW2NHWC_DoRunWithType_error:
  "fst (NCHW2NHWC_DoRunWithType t u X s) = Inl e \<Longrightarrow> e = OutOfRange \<or> e = TransformFailure"
  unfolding NCHW2NHWC_DoRunWithType_def Let_def
  by (auto split: prod.splits sum.splits if_splits
      dest: NCHW2NHWC_Y_dims_error SetTensorDescriptor_error cudnnTransformTensor_error)

lemma NHWC2NCHW_RunOnDevice_error:
  "fst (NHWC2NCHW_RunOnDevice u X s) = Inl e \<Longrightarrow>
     e = OutOfRange \<or> e = TransformFailure \<or> e = UnsupportedTypeError"
  using NHWC2NCHW_DoRunWithType_error [of _ u X s e]
  by (auto simp: NHWC2NCHW_RunOnDevice_def split: if_splits)

lemma NCHW2NHWC_RunOnDevice_error:
  "fst (NCHW2NHWC_RunOnDevice u X s) = Inl e \<Longrightarrow>
     e = OutOfRange \<or> e = TransformFailure \<or> e = UnsupportedTypeError"
  using NCHW2NHWC_DoRunWithType_error [of _ u X s e]
  by (auto simp: NCHW2NHWC_RunOnDevice_def split: if_splits)

text \<open>
  Claim C9. An input whose element type is neither 32-bit nor 16-bit float fails with
  \<open>UnsupportedTypeError\<close>, the operator and the output left as they were; for these
  two element types no call fails with that error.
\<close>

theorem RunOnDevice_unsupported_type:
  "(meta X \<noteq> meta_float \<and> meta X \<noteq> meta_Half \<longrightarrow>
      NHWC2NCHW_RunOnDevice u X s = (Inl UnsupportedTypeError, s)
    \<and> NCHW2NHWC_RunOnDevice u X s = (Inl UnsupportedTypeError, s))
 \<and> (meta X = meta_float \<or> meta X = meta_Half \<longrightarrow>
      fst (NHWC2NCHW_RunOnDevice u X s) \<noteq> Inl UnsupportedTypeError
    \<and> fst (NCHW2NHWC_RunOnDevice u X s) \<noteq> Inl UnsupportedTypeError)"
  using NHWC2NCHW_DoRunWithType_error [of _ u X s UnsupportedTypeError]
        NCHW2NHWC_DoRunWithType_error [of _ u X s UnsupportedTypeError]
  by (auto simp: NHWC2NCHW_RunOnDevice_def NCHW2NHWC_RunOnDevice_def)

theorem RunOnDevice_unsupported_type_witness:
  "(meta_double \<noteq> meta_float \<and> meta_double \<noteq> meta_Half)
   \<and> NHWC2NCHW_RunOnDevice (0 :: nat) \<lparr>meta = meta_double, sizes = [1, 2, 3], data = [10, 20, 30, 40, 50, 60]\<rparr>
        (CuDNNOrderSwithOpBase, \<lparr>meta = meta_float, sizes = [], data = []\<rparr>)
       = (Inl UnsupportedTypeError,
          CuDNNOrderSwithOpBase, \<lparr>meta = meta_float, sizes = [], data = []\<rparr>)
   \<and> (meta_Half = meta_float \<or> meta_Half = meta_Half)
   \<and> fst (NCHW2NHWC_RunOnDevice (0 :: nat)
            \<lparr>meta = meta_Half, sizes = [1, 2, 3], data = [10, 20, 30, 40, 50, 60]\<rparr>
            (CuDNNOrderSwithOpBase, \<lparr>meta = meta_float, sizes = [], data = []\<rparr>))
       \<noteq> Inl UnsupportedTypeError"
  using RunOnDevice_unsupported_type
          [of "\<lparr>meta = meta_double, sizes = [1, 2, 3], data = [10, 20, 30, 40, 50, 60]\<rparr>" "0 :: nat"
              "(CuDNNOrderSwithOpBase, \<lparr>meta = meta_float, sizes = [], data = []\<rparr>)"]
        RunOnDevice_unsupported_type
          [of "\<lparr>meta = meta_Half, sizes = [1, 2, 3], data = [10, 20, 30, 40, 50, 60]\<rparr>" "0 :: nat"
              "(CuDNNOrderSwithOpBase, \<lparr>meta = meta_float, sizes = [], data = []\<rparr>)"]
  by simp

section \<open>The descriptor cache\<close>

lemma NHWC2NCHW_DoRunWithType_hit:
  assumes "cached_X_dims st = sizes X"
  shows "fst (snd (NHWC2NCHW_DoRunWithType t u X (st, Y))) = st"
  using assms unfolding NHWC2NCHW_DoRunWithType_def Let_def
  by (simp split: sum.splits)

lemma NCHW2NHWC_DoRunWithType_hit:
  assumes "cached_X_dims st = sizes X"
  shows "fst (snd (NCHW2NHWC_DoRunWithType t u X (st, Y))) = st"
  using assms unfolding NCHW2NHWC_DoRunWithType_def Let_def
  by (simp split: sum.splits)

text \<open>
  Claim C7. A call whose input extents equal the cached ones leaves the members of the
  operator (the cached extents and both descriptors) exactly as they were, whatever the
  call returns.
\<close>

theorem RunOnDevice_cache_hit_keeps_state:
  assumes "cached_X_dims st = sizes X"
  shows "fst (snd (NHWC2NCHW_RunOnDevice u X (st, Y))) = st
       \<and> fst (snd (NCHW2NHWC_RunOnDevice u X (st, Y))) = st"
  using assms
  by (simp add: NHWC2NCHW_RunOnDevice_def NCHW2NHWC_RunOnDevice_def
      NHWC2NCHW_DoRunWithType_hit NCHW2NHWC_DoRunWithType_hit)

theorem RunOnDevice_cache_hit_keeps_state_witness:
  "cached_X_dims
      \<lparr>X_desc = Some \<lparr>dataType = CUDNN_DATA_FLOAT, nbDims = 4, dimA = [1, 2, 1, 3],
                          strideA = [6, 3, 3, 1]\<rparr>,
         Y_desc = Some \<lparr>dataType = CUDNN_DATA_FLOAT, nbDims = 4, dimA = [1, 2, 1, 3],
                          strideA = [6, 1, 6, 2]\<rparr>,
         cached_X_dims = [1, 2, 3]\<rparr>
     = sizes \<lparr>meta = meta_float, sizes = [1, 2, 3], data = [10, 20, 30, 40, 50, 60 :: nat]\<rparr>
   \<and> fst (snd (NHWC2NCHW_RunOnDevice 0
        \<lparr>meta = meta_float, sizes = [1, 2, 3], data = [10, 20, 30, 40, 50, 60 :: nat]\<rparr>
        (\<lparr>X_desc = Some \<lparr>dataType = CUDNN_DATA_FLOAT, nbDims = 4, dimA = [1, 2, 1, 3],
                          strideA = [6, 3, 3, 1]\<rparr>,
         Y_desc = Some \<lparr>dataType = CUDNN_DATA_FLOAT, nbDims = 4, dimA = [1, 2, 1, 3],
                          strideA = [6, 1, 6, 2]\<rparr>,
         cached_X_dims = [1, 2, 3]\<rparr>,
         \<lparr>meta = meta_float, sizes = [], data = [] :: nat list\<rparr>)))
     = \<lparr>X_desc = Some \<lparr>dataType = CUDNN_DATA_FLOAT, nbDims = 4, dimA = [1, 2, 1, 3],
                          strideA = [6, 3, 3, 1]\<rparr>,
         Y_desc = Some \<lparr>dataType = CUDNN_DATA_FLOAT, nbDims = 4, dimA = [1, 2, 1, 3],
                          strideA = [6, 1, 6, 2]\<rparr>,
         cached_X_dims = [1, 2, 3]\<rparr>
   \<and> fst (snd (NCHW2NHWC_RunOnDevice 0
        \<lparr>meta = meta_float, sizes = [1, 2, 3], data = [10, 20, 30, 40, 50, 60 :: nat]\<rparr>
        (\<lparr>X_desc = Some \<lparr>dataType = CUDNN_DATA_FLOAT, nbDims = 4, dimA = [1, 2, 1, 3],
                          strideA = [6, 3, 3, 1]\<rparr>,
         Y_desc = Some \<lparr>dataType = CUDNN_DATA_FLOAT, nbDims = 4, dimA = [1, 2, 1, 3],
                          strideA = [6, 1, 6, 2]\<rparr>,
         cached_X_dims = [1, 2, 3]\<rparr>,
         \<lparr>meta = meta_float, sizes = [], data = [] :: nat list\<rparr>)))
     = \<lparr>X_desc = Some \<lparr>dataType = CUDNN_DATA_FLOAT, nbDims = 4, dimA = [1, 2, 1, 3],
                          strideA = [6, 3, 3, 1]\<rparr>,
         Y_desc = Some \<lparr>dataType = CUDNN_DATA_FLOAT, nbDims = 4, dimA = [1, 2, 1, 3],
                          strideA = [6, 1, 6, 2]\<rparr>,
         cached_X_dims = [1, 2, 3]\<rparr>"
proof -
  have h: "cached_X_dims
      \<lparr>X_desc = Some \<lparr>dataType = CUDNN_DATA_FLOAT, nbDims = 4, dimA = [1, 2, 1, 3],
                          strideA = [6, 3, 3, 1]\<rparr>,
         Y_desc = Some \<lparr>dataType = CUDNN_DATA_FLOAT, nbDims = 4, dimA = [1, 2, 1, 3],
                          strideA = [6, 1, 6, 2]\<rparr>,
         cached_X_dims = [1, 2, 3]\<rparr>
     = sizes \<lparr>meta = meta_float, sizes = [1, 2, 3], data = [10, 20, 30, 40, 50, 60 :: nat]\<rparr>"
    by simp
  from h RunOnDevice_cache_hit_keeps_state [OF h] show ?thesis
    by (rule conjI)
qed

text \<open>
  Claim C10. The cache is keyed on the input extents alone: a call of either
  instantiation whose input extents equal the cached ones leaves both descriptors, and
  so their element type tags, unchanged, whatever element type built them.
\<close>

theorem DoRunWithType_cache_ignores_type:
  assumes "cached_X_dims st = sizes X"
  shows "X_desc (fst (snd (NHWC2NCHW_DoRunWithType t u X (st, Y)))) = X_desc st
       \<and> Y_desc (fst (snd (NHWC2NCHW_DoRunWithType t u X (st, Y)))) = Y_desc st
       \<and> X_desc (fst (snd (NCHW2NHWC_DoRunWithType t u X (st, Y)))) = X_desc st
       \<and> Y_desc (fst (snd (NCHW2NHWC_DoRunWithType t u X (st, Y)))) = Y_desc st"
  using assms
  by (simp add: NHWC2NCHW_DoRunWithType_hit NCHW2NHWC_DoRunWithType_hit)

theorem DoRunWithType_cache_ignores_type_witness:
  "cached_X_dims
      \<lparr>X_desc = Some \<lparr>dataType = CUDNN_DATA_FLOAT, nbDims = 4, dimA = [1, 2, 1, 3],
                          strideA = [6, 3, 3, 1]\<rparr>,
         Y_desc = Some \<lparr>dataType = CUDNN_DATA_FLOAT, nbDims = 4, dimA = [1, 2, 1, 3],
                          strideA = [6, 1, 6, 2]\<rparr>,
         cached_X_dims = [1, 2, 3]\<rparr>
     = sizes \<lparr>meta = meta_Half, sizes = [1, 2, 3], data = [10, 20, 30, 40, 50, 60 :: nat]\<rparr>
   \<and> X_desc (fst (snd (NHWC2NCHW_DoRunWithType T_Half 0
        \<lparr>meta = meta_Half, sizes = [1, 2, 3], data = [10, 20, 30, 40, 50, 60 :: nat]\<rparr>
        (\<lparr>X_desc = Some \<lparr>dataType = CUDNN_DATA_FLOAT, nbDims = 4, dimA = [1, 2, 1, 3],
                          strideA = [6, 3, 3, 1]\<rparr>,
         Y_desc = Some \<lparr>dataType = CUDNN_DATA_FLOAT, nbDims = 4, dimA = [1, 2, 1, 3],
                          strideA = [6, 1, 6, 2]\<rparr>,
         cached_X_dims = [1, 2, 3]\<rparr>,
         \<lparr>meta = meta_float, sizes = [], data = [] :: nat list\<rparr>))))
     = Some \<lparr>dataType = CUDNN_DATA_FLOAT, nbDims = 4, dimA = [1, 2, 1, 3],
              strideA = [6, 3, 3, 1]\<rparr>
   \<and> Y_desc (fst (snd (NHWC2NCHW_DoRunWithType T_Half 0
        \<lparr>meta = meta_Half, sizes = [1, 2, 3], data = [10, 20, 30, 40, 50, 60 :: nat]\<rparr>
        (\<lparr>X_desc = Some \<lparr>dataType = CUDNN_DATA_FLOAT, nbDims = 4, dimA = [1, 2, 1, 3],
                          strideA = [6, 3, 3, 1]\<rparr>,
         Y_desc = Some \<lparr>dataType = CUDNN_DATA_FLOAT, nbDims = 4, dimA = [1, 2, 1, 3],
                          strideA = [6, 1, 6, 2]\<rparr>,
         cached_X_dims = [1, 2, 3]\<rparr>,
         \<lparr>meta = meta_float, sizes = [], data = [] :: nat list\<rparr>))))
     = Some \<lparr>dataType = CUDNN_DATA_FLOAT, nbDims = 4, dimA = [1, 2, 1, 3],
              strideA = [6, 1, 6, 2]\<rparr>
   \<and> X_desc (fst (snd (NCHW2NHWC_DoRunWithType T_Half 0
        \<lparr>meta = meta_Half, sizes = [1, 2, 3], data = [10, 20, 30, 40, 50, 60 :: nat]\<rparr>
        (\<lparr>X_desc = Some \<lparr>dataType = CUDNN_DATA_FLOAT, nbDims = 4, dimA = [1, 2, 1, 3],
                          strideA = [6, 3, 3, 1]\<rparr>,
         Y_desc = Some \<lparr>dataType = CUDNN_DATA_FLOAT, nbDims = 4, dimA = [1, 2, 1, 3],
                          strideA = [6, 1, 6, 2]\<rparr>,
         cached_X_dims = [1, 2, 3]\<rparr>,
         \<lparr>meta = meta_float, sizes = [], data = [] :: nat list\<rparr>))))
     = Some \<lparr>dataType = CUDNN_DATA_FLOAT, nbDims = 4, dimA = [1, 2, 1, 3],
              strideA = [6, 3, 3, 1]\<rparr>
   \<and> Y_desc (fst (snd (NCHW2NHWC_DoRunWithType T_Half 0
        \<lparr>meta = meta_Half, sizes = [1, 2, 3], data = [10, 20, 30, 40, 50, 60 :: nat]\<rparr>
        (\<lparr>X_desc = Some \<lparr>dataType = CUDNN_DATA_FLOAT, nbDims = 4, dimA = [1, 2, 1, 3],
                          strideA = [6, 3, 3, 1]\<rparr>,
         Y_desc = Some \<lparr>dataType = CUDNN_DATA_FLOAT, nbDims = 4, dimA = [1, 2, 1, 3],
                          strideA = [6, 1, 6, 2]\<rparr>,
         cached_X_dims = [1, 2, 3]\<rparr>,
         \<lparr>meta = meta_float, sizes = [], data = [] :: nat list\<rparr>))))
     = Some \<lparr>dataType = CUDNN_DATA_FLOAT, nbDims = 4, dimA = [1, 2, 1, 3],
              strideA = [6, 1, 6, 2]\<rparr>"
proof -
  have h: "cached_X_dims
      \<lparr>X_desc = Some \<lparr>dataType = CUDNN_DATA_FLOAT, nbDims = 4, dimA = [1, 2, 1, 3],
                          strideA = [6, 3, 3, 1]\<rparr>,
         Y_desc = Some \<lparr>dataType = CUDNN_DATA_FLOAT, nbDims = 4, dimA = [1, 2, 1, 3],
                          strideA = [6, 1, 6, 2]\<rparr>,
         cached_X_dims = [1, 2, 3]\<rparr>
     = sizes \<lparr>meta = meta_Half, sizes = [1, 2, 3], data = [10, 20, 30, 40, 50, 60 :: nat]\<rparr>"
    by simp
  from h DoRunWithType_cache_ignores_type [OF h, of T_Half 0
         "\<lparr>meta = meta_float, sizes = [], data = [] :: nat list\<rparr>"]
  show ?thesis
    by simp
qed

section \<open>Inputs of rank below 3\<close>

lemma NHWC2NCHW_DoRunWithType_rank2:
  assumes "length (sizes X) = 2"
  shows "sizes (snd (snd (NHWC2NCHW_DoRunWithType t u X s))) = [sizes X ! 0, sizes X ! 1]"
proof -
  from assms obtain n c where sz: "sizes X = n # [] @ [c]"
    by (cases "sizes X"; cases "tl (sizes X)") auto
  have y: "NHWC2NCHW_Y_dims (sizes X) = Inr (n # c # [])"
    unfolding sz by (rule NHWC2NCHW_Y_dims_ends)
  show ?thesis
    unfolding NHWC2NCHW_DoRunWithType_def Let_def y
    using sz by (simp add: Resize_def mutable_data_def split: sum.splits prod.splits)
qed

lemma NCHW2NHWC_DoRunWithType_rank2:
  assumes "length (sizes X) = 2"
  shows "sizes (snd (snd (NCHW2NHWC_DoRunWithType t u X s))) = [sizes X ! 0, sizes X ! 1]"
proof -
  from assms obtain n c where sz: "sizes X = n # c # []"
    by (cases "sizes X"; cases "tl (sizes X)") auto
  have y: "NCHW2NHWC_Y_dims (sizes X) = Inr (n # [] @ [c])"
    unfolding sz by (rule NCHW2NHWC_Y_dims_front)
  show ?thesis
    unfolding NCHW2NHWC_DoRunWithType_def Let_def y
    using sz by (simp add: Resize_def mutable_data_def split: sum.splits prod.splits)
qed

lemma rank2_example:
  "NCHW2NHWC_RunOnDevice (0 :: nat)
     \<lparr>meta = meta_float, sizes = [2, 3], data = [10, 20, 30, 40, 50, 60]\<rparr>
     (CuDNNOrderSwithOpBase, \<lparr>meta = meta_float, sizes = [], data = []\<rparr>) =
   (Inl OutOfRange, \<lparr>X_desc = None, Y_desc = None, cached_X_dims = [2, 3]\<rparr>,
    \<lparr>meta = meta_float, sizes = [2, 3], data = []\<rparr>)"
  by code_simp

text \<open>
  Claim C4, as stated, fails. A rank-2 input of extents \<open>(2, 3)\<close> given to a new
  NCHW2NHWC operator does not fail with \<open>RankError\<close>: the output tensor, of no extents
  before, is resized to \<open>(2, 3)\<close>, and the call then ends in the derivation of the
  descriptor, which reads the third extent of a vector of two.
\<close>

theorem rank2_not_RankError_counterexample:
  "fst (NCHW2NHWC_RunOnDevice (0 :: nat)
          \<lparr>meta = meta_float, sizes = [2, 3], data = [10, 20, 30, 40, 50, 60]\<rparr>
          (CuDNNOrderSwithOpBase, \<lparr>meta = meta_float, sizes = [], data = []\<rparr>))
     \<noteq> Inl RankError
   \<and> fst (NCHW2NHWC_RunOnDevice (0 :: nat)
          \<lparr>meta = meta_float, sizes = [2, 3], data = [10, 20, 30, 40, 50, 60]\<rparr>
          (CuDNNOrderSwithOpBase, \<lparr>meta = meta_float, sizes = [], data = []\<rparr>))
     = Inl OutOfRange
   \<and> sizes (snd (snd (NCHW2NHWC_RunOnDevice (0 :: nat)
          \<lparr>meta = meta_float, sizes = [2, 3], data = [10, 20, 30, 40, 50, 60]\<rparr>
          (CuDNNOrderSwithOpBase, \<lparr>meta = meta_float, sizes = [], data = []\<rparr>))))
     = [2, 3]"
  unfolding rank2_example by simp

text \<open>
  Claim C4, amended. The operators do not validate the rank: for an input of rank below
  3 no call fails with \<open>RankError\<close>, and for an input of rank 2 and a supported element
  type the output tensor is resized to \<open>[dims[0], dims[1]]\<close>, whatever the call then
  returns.
\<close>

theorem rank_below_3_unchecked:
  assumes "length (sizes X) < 3"
  shows "fst (NHWC2NCHW_RunOnDevice u X s) \<noteq> Inl RankError
       \<and> fst (NCHW2NHWC_RunOnDevice u X s) \<noteq> Inl RankError
       \<and> (length (sizes X) = 2 \<and> (meta X = meta_float \<or> meta X = meta_Half) \<longrightarrow>
            sizes (snd (snd (NHWC2NCHW_RunOnDevice u X s))) = [sizes X ! 0, sizes X ! 1]
          \<and> sizes (snd (snd (NCHW2NHWC_RunOnDevice u X s))) = [sizes X ! 0, sizes X ! 1])"
proof -
  have "fst (NHWC2NCHW_RunOnDevice u X s) \<noteq> Inl RankError"
    using NHWC2NCHW_RunOnDevice_error [of u X s RankError] by auto
  moreover have "fst (NCHW2NHWC_RunOnDevice u X s) \<noteq> Inl RankError"
    using NCHW2NHWC_RunOnDevice_error [of u X s RankError] by auto
  moreover have "sizes (snd (snd (NHWC2NCHW_RunOnDevice u X s))) = [sizes X ! 0, sizes X ! 1]"
    if "length (sizes X) = 2" "meta X = meta_float \<or> meta X = meta_Half"
    using that by (auto simp: NHWC2NCHW_RunOnDevice_def NHWC2NCHW_DoRunWithType_rank2)
  moreover have "sizes (snd (snd (NCHW2NHWC_RunOnDevice u X s))) = [sizes X ! 0, sizes X ! 1]"
    if "length (sizes X) = 2" "meta X = meta_float \<or> meta X = meta_Half"
    using that by (auto simp: NCHW2NHWC_RunOnDevice_def NCHW2NHWC_DoRunWithType_rank2)
  ultimately show ?thesis by blast
qed

theorem rank_below_3_unchecked_witness:
  "length (sizes \<lparr>meta = meta_float, sizes = [2, 3], data = [10, 20, 30, 40, 50, 60 :: nat]\<rparr>) < 3
   \<and> fst (NHWC2NCHW_RunOnDevice 0 \<lparr>meta = meta_float, sizes = [2, 3], data = [10, 20, 30, 40, 50, 60 :: nat]\<rparr>
          (CuDNNOrderSwithOpBase, \<lparr>meta = meta_float, sizes = [], data = [] :: nat list\<rparr>)) \<noteq> Inl RankError
   \<and> fst (NCHW2NHWC_RunOnDevice 0 \<lparr>meta = meta_float, sizes = [2, 3], data = [10, 20, 30, 40, 50, 60 :: nat]\<rparr>
          (CuDNNOrderSwithOpBase, \<lparr>meta = meta_float, sizes = [], data = [] :: nat list\<rparr>)) \<noteq> Inl RankError
   \<and> sizes (snd (snd (NHWC2NCHW_RunOnDevice 0 \<lparr>meta = meta_float, sizes = [2, 3], data = [10, 20, 30, 40, 50, 60 :: nat]\<rparr>
          (CuDNNOrderSwithOpBase, \<lparr>meta = meta_float, sizes = [], data = [] :: nat list\<rparr>)))) = [2, 3]
   \<and> sizes (snd (snd (NCHW2NHWC_RunOnDevice 0 \<lparr>meta = meta_float, sizes = [2, 3], data = [10, 20, 30, 40, 50, 60 :: nat]\<rparr>
          (CuDNNOrderSwithOpBase, \<lparr>meta = meta_float, sizes = [], data = [] :: nat list\<rparr>)))) = [2, 3]"
proof -
  have h: "length (sizes \<lparr>meta = meta_float, sizes = [2, 3], data = [10, 20, 30, 40, 50, 60 :: nat]\<rparr>) < 3"
    by simp
  from h rank_below_3_unchecked [OF h, of 0
         "(CuDNNOrderSwithOpBase, \<lparr>meta = meta_float, sizes = [], data = [] :: nat list\<rparr>)"]
  show ?thesis
    by simp
qed
section \<open>The transform primitive\<close>

text \<open>
  The writes of the transform: a cell that no later index tuple is sent to keeps what
  was written to it.
\<close>

lemma fold_write_length:
  "length (fold (\<lambda>i buf. buf[g i := v i]) idxs y) = length y"
  by (induction idxs arbitrary: y) simp_all

lemma fold_write_other:
  "k \<notin> g ` set idxs \<Longrightarrow> fold (\<lambda>i buf. buf[g i := v i]) idxs y ! k = y ! k"
  by (induction idxs arbitrary: y) auto

lemma fold_write_nth:
  assumes "distinct (map g idxs)" "i \<in> set idxs" "g i < length y"
  shows "fold (\<lambda>i buf. buf[g i := v i]) idxs y ! g i = v i"
  using assms
proof (induction idxs arbitrary: y)
  case Nil
  then show ?case by simp
next
  case (Cons a idxs)
  show ?case
  proof (cases "i = a")
    case True
    with Cons.prems have "g a \<notin> g ` set idxs" by auto
    then have "fold (\<lambda>i buf. buf[g i := v i]) idxs (y[g a := v a]) ! g a = y[g a := v a] ! g a"
      by (rule fold_write_other)
    with True Cons.prems show ?thesis by simp
  next
    case False
    with Cons.prems have "i \<in> set idxs" "distinct (map g idxs)" "g i < length (y[g a := v a])"
      by auto
    then show ?thesis using Cons.IH by simp
  qed
qed

lemma length_multi_indices: "length (multi_indices ds) = prod_list ds"
proof (induction ds)
  case Nil
  then show ?case by simp
next
  case (Cons d ds)
  have "length (concat (map (\<lambda>i. map ((#) i) (multi_indices ds)) [0..<k])) = k * prod_list ds" for k
    by (induction k) (simp_all add: Cons.IH)
  then show ?case by simp
qed

lemma distinct_multi_indices: "distinct (multi_indices ds)"
proof (induction ds)
  case Nil
  then show ?case by simp
next
  case (Cons d ds)
  show ?case
  proof (cases "multi_indices ds = []")
    case True
    have e: "concat (map (\<lambda>i. []) [0..<k]) = ([] :: nat list list)" for k
      by (induction k) simp_all
    show ?thesis by (simp add: True e)
  next
    case False
    then obtain j js where js: "multi_indices ds = j # js"
      by (cases "multi_indices ds") auto
    have "distinct (concat (map (\<lambda>i. map ((#) i) (multi_indices ds)) [0..<d]))"
    proof (rule distinct_concat)
      show "distinct (map (\<lambda>i. map ((#) i) (multi_indices ds)) [0..<d])"
        using js by (auto simp: distinct_map inj_on_def)
    next
      fix ys assume "ys \<in> set (map (\<lambda>i. map ((#) i) (multi_indices ds)) [0..<d])"
      then show "distinct ys" using Cons by (auto simp: distinct_map)
    next
      fix ys zs
      assume "ys \<in> set (map (\<lambda>i. map ((#) i) (multi_indices ds)) [0..<d])"
        "zs \<in> set (map (\<lambda>i. map ((#) i) (multi_indices ds)) [0..<d])" "ys \<noteq> zs"
      then show "set ys \<inter> set zs = {}" by auto
    qed
    then show ?thesis by simp
  qed
qed

lemma multi_indices_iff: "i \<in> set (multi_indices ds) \<longleftrightarrow> list_all2 (<) i ds"
proof (induction ds arbitrary: i)
  case Nil
  then show ?case by simp
next
  case (Cons d ds)
  show ?case
    by (cases i) (auto simp: Cons.IH image_iff)
qed

lemma layout_ok_onto:
  assumes ok: "layout_ok dims strides n" and k: "k < n"
  shows "\<exists>i \<in> set (multi_indices (map (\<lambda>d. nat (sint d)) dims)).
           nat (offset (map sint strides) i) = k"
proof -
  let ?I = "set (multi_indices (map (\<lambda>d. nat (sint d)) dims))"
  let ?f = "offset (map sint strides)"
  let ?g = "\<lambda>i. nat (?f i)"
  from ok have len: "length (multi_indices (map (\<lambda>d. nat (sint d)) dims)) = n"
    and rng: "\<forall>i \<in> ?I. 0 \<le> ?f i \<and> ?f i < int n"
    and inj: "inj_on ?f ?I"
    by (simp_all add: layout_ok_def Let_def)
  have card: "card ?I = n"
    using len distinct_multi_indices [of "map (\<lambda>d. nat (sint d)) dims"]
    by (simp add: distinct_card)
  have inj': "inj_on ?g ?I"
  proof (rule inj_onI)
    fix i j assume "i \<in> ?I" "j \<in> ?I" "?g i = ?g j"
    with rng have "?f i = ?f j" by (metis nat_eq_iff2 int_nat_eq)
    with inj \<open>i \<in> ?I\<close> \<open>j \<in> ?I\<close> show "i = j" by (auto dest: inj_onD)
  qed
  have sub: "?g ` ?I \<subseteq> {..<n}"
    using rng by auto
  have "card (?g ` ?I) = n"
    using inj' card by (simp add: card_image)
  with sub have "?g ` ?I = {..<n}"
    by (intro card_subset_eq) simp_all
  with k show ?thesis by (metis (no_types, lifting) imageE lessThan_iff)
qed

lemma cudnnTransformTensor_relayout:
  assumes dt: "dataType a = data_type" "dataType b = data_type"
    and nb: "nbDims a = nbDims b"
    and dm: "dimA a = dimA b"
    and oka: "layout_ok (dimA a) (strideA a) n"
    and okb: "layout_ok (dimA b) (strideA b) n"
    and lx: "length x = n" and ly: "length y = n"
  shows "\<exists>y'. cudnnTransformTensor data_type (Some a) x (Some b) y = Inr y'
           \<and> length y' = n
           \<and> (\<forall>i \<in> set (multi_indices (map (\<lambda>d. nat (sint d)) (dimA a))).
                 y' ! nat (offset (map sint (strideA b)) i)
                   = x ! nat (offset (map sint (strideA a)) i))"
proof -
  let ?idxs = "multi_indices (map (\<lambda>d. nat (sint d)) (dimA a))"
  let ?fa = "offset (map sint (strideA a))"
  let ?fb = "offset (map sint (strideA b))"
  let ?y' = "fold (\<lambda>i buf. buf[nat (?fb i) := x ! nat (?fa i)]) ?idxs y"
  from oka have rnga: "\<forall>i \<in> set ?idxs. 0 \<le> ?fa i \<and> ?fa i < int n"
    by (simp add: layout_ok_def Let_def)
  from okb dm have rngb: "\<forall>i \<in> set ?idxs. 0 \<le> ?fb i \<and> ?fb i < int n"
    and injb: "inj_on ?fb (set ?idxs)"
    by (simp_all add: layout_ok_def Let_def)
  have inb: "list_all (\<lambda>i. in_buffer (?fa i) x \<and> in_buffer (?fb i) y) ?idxs"
    using rnga rngb lx ly by (simp add: list_all_iff in_buffer_def)
  have run: "cudnnTransformTensor data_type (Some a) x (Some b) y = Inr ?y'"
    using dt nb dm inb by (simp add: cudnnTransformTensor_def Let_def)
  have len: "length ?y' = n"
    using ly by (simp add: fold_write_length)
  have injn: "inj_on (\<lambda>i. nat (?fb i)) (set ?idxs)"
  proof (rule inj_onI)
    fix i j assume "i \<in> set ?idxs" "j \<in> set ?idxs" "nat (?fb i) = nat (?fb j)"
    with rngb have "?fb i = ?fb j" by (metis nat_eq_iff2 int_nat_eq)
    with injb \<open>i \<in> set ?idxs\<close> \<open>j \<in> set ?idxs\<close> show "i = j" by (auto dest: inj_onD)
  qed
  have dist: "distinct (map (\<lambda>i. nat (?fb i)) ?idxs)"
    using injn distinct_multi_indices by (simp add: distinct_map)
  have "?y' ! nat (?fb i) = x ! nat (?fa i)" if "i \<in> set ?idxs" for i
  proof -
    from that rngb ly have "nat (?fb i) < length y" by auto
    with dist that show ?thesis
      by (rule fold_write_nth [where g = "\<lambda>i. nat (?fb i)" and v = "\<lambda>i. x ! nat (?fa i)"])
  qed
  with run len show ?thesis by blast
qed

lemma relayout_roundtrip:
  assumes oka: "layout_ok dims sa n"
    and yx: "\<forall>i \<in> set (multi_indices (map (\<lambda>d. nat (sint d)) dims)).
                y' ! nat (offset (map sint sb) i) = x ! nat (offset (map sint sa) i)"
    and zy: "\<forall>i \<in> set (multi_indices (map (\<lambda>d. nat (sint d)) dims)).
                z' ! nat (offset (map sint sa) i) = y' ! nat (offset (map sint sb) i)"
    and lx: "length x = n" and lz: "length z' = n"
  shows "z' = x"
proof (rule nth_equalityI)
  show "length z' = length x" using lx lz by simp
next
  fix k assume "k < length z'"
  with lz have "k < n" by simp
  with oka obtain i where i: "i \<in> set (multi_indices (map (\<lambda>d. nat (sint d)) dims))"
    and k: "nat (offset (map sint sa) i) = k"
    using layout_ok_onto by blast
  from yx zy i have "z' ! nat (offset (map sint sa) i) = x ! nat (offset (map sint sa) i)"
    by simp
  with k show "z' ! k = x ! k" by simp
qed

section \<open>Strides within the range of int\<close>

text \<open>
  While the element count stays below \<open>2 ^ 31\<close> and every extent is positive, no
  product of extents overflows, and the offsets of both layouts are mixed-radix numbers:
  each index tuple has its own cell.
\<close>

lemma mixed_radix_step_less:
  fixes a A m P :: nat
  assumes "a < A" "m < P"
  shows "a + A * m < A * P"
proof -
  from assms(2) have "A * (m + 1) \<le> A * P" by (intro mult_le_mono2) simp
  with assms(1) show ?thesis by simp
qed

lemma mixed_radix_step_inj:
  fixes a b A m m' :: nat
  assumes "a < A" "b < A" "a + A * m = b + A * m'"
  shows "a = b \<and> m = m'"
proof -
  from assms have "(a + A * m) mod A = (b + A * m') mod A" by simp
  with assms(1,2) have ab: "a = b" by simp
  with assms have "A * m = A * m'" by simp
  with assms(1) have "m = m'" by simp
  with ab show ?thesis by simp
qed

lemma mixed_radix_less:
  "list_all2 (<) as As \<Longrightarrow> mixed_radix As as < prod_list As"
  by (induction as As rule: list_all2_induct) (simp_all add: mixed_radix_step_less)

lemma mixed_radix_inj:
  "list_all2 (<) as As \<Longrightarrow> list_all2 (<) bs As \<Longrightarrow>
   mixed_radix As as = mixed_radix As bs \<Longrightarrow> as = bs"
proof (induction as As arbitrary: bs rule: list_all2_induct)
  case Nil
  then show ?case by simp
next
  case (Cons a as A As)
  from Cons.prems(1) obtain b bs' where bs: "bs = b # bs'" "b < A" "list_all2 (<) bs' As"
    by (cases bs) auto
  with Cons.prems(2) Cons.hyps(1)
  have "a = b \<and> mixed_radix As as = mixed_radix As bs'"
    by (intro mixed_radix_step_inj [of a A b]) simp_all
  with Cons.IH bs show ?case by simp
qed

lemma layout_okI:
  assumes len: "prod_list (map (\<lambda>d. nat (sint d)) dims) = n"
    and radix: "prod_list As = n"
    and off: "\<And>i. list_all2 (<) i (map (\<lambda>d. nat (sint d)) dims) \<Longrightarrow>
                 offset (map sint strides) i = int (mixed_radix As (p i))
                 \<and> list_all2 (<) (p i) As"
    and inj: "\<And>i j. list_all2 (<) i (map (\<lambda>d. nat (sint d)) dims) \<Longrightarrow>
                 list_all2 (<) j (map (\<lambda>d. nat (sint d)) dims) \<Longrightarrow> p i = p j \<Longrightarrow> i = j"
  shows "layout_ok dims strides n"
proof -
  let ?ds = "map (\<lambda>d. nat (sint d)) dims"
  have 1: "length (multi_indices ?ds) = n"
    using len by (simp add: length_multi_indices)
  have 2: "0 \<le> offset (map sint strides) i \<and> offset (map sint strides) i < int n"
    if "i \<in> set (multi_indices ?ds)" for i
  proof -
    from that have i: "list_all2 (<) i ?ds" by (simp add: multi_indices_iff)
    from off [OF i] mixed_radix_less [of "p i" As] radix show ?thesis by simp
  qed
  have 3: "inj_on (offset (map sint strides)) (set (multi_indices ?ds))"
  proof (rule inj_onI)
    fix i j
    assume "i \<in> set (multi_indices ?ds)" "j \<in> set (multi_indices ?ds)"
      and eq: "offset (map sint strides) i = offset (map sint strides) j"
    then have i: "list_all2 (<) i ?ds" and j: "list_all2 (<) j ?ds"
      by (simp_all add: multi_indices_iff)
    from off [OF i] off [OF j] eq have "mixed_radix As (p i) = mixed_radix As (p j)"
      by simp
    with off [OF i] off [OF j] have "p i = p j"
      by (intro mixed_radix_inj [of "p i" As "p j"]) simp_all
    with i j show "i = j" by (rule inj)
  qed
  from 1 2 3 show ?thesis
    by (simp add: layout_ok_def Let_def)
qed

lemma sint_mult_lift:
  fixes a b :: int32
  assumes "sint a = int A" "sint b = int B" "A * B < 2 ^ 31"
  shows "sint (a * b) = int (A * B)"
proof -
  have "int (A * B) < 2 ^ 31"
    using assms(3) by (metis of_nat_less_iff of_nat_numeral of_nat_power)
  moreover have "- (2 ^ 31) \<le> int (A * B)"
    by (rule order_trans [of _ 0]) simp_all
  ultimately have "signed_take_bit 31 (int (A * B)) = int (A * B)"
    by (intro signed_take_bit_int_eq_self) simp_all
  then show ?thesis
    using assms(1,2) by (simp add: sint_word_mult)
qed

lemma factor_less:
  fixes x k B :: nat
  assumes "0 < k" "x * k < B"
  shows "x < B"
proof -
  from assms(1) have "x \<le> x * k" by (cases k) simp_all
  then show ?thesis using assms(2) by (rule le_less_trans)
qed

lemma sint_prod_list_lift:
  fixes r :: "int32 list"
  assumes "\<forall>d \<in> set r. 0 < sint d" "prod_list (map (\<lambda>d. nat (sint d)) r) < 2 ^ 31"
  shows "sint (prod_list r) = int (prod_list (map (\<lambda>d. nat (sint d)) r))"
  using assms
proof (induction r)
  case Nil
  then show ?case by simp
next
  case (Cons d r)
  let ?P = "prod_list (map (\<lambda>d. nat (sint d)) r)"
  from Cons.prems(1) have d: "0 < sint d" and r: "\<forall>d \<in> set r. 0 < sint d" by simp_all
  from d have dn: "sint d = int (nat (sint d))" and dpos: "0 < nat (sint d)" by simp_all
  from Cons.prems(2) have b: "nat (sint d) * ?P < 2 ^ 31" by simp
  then have "?P * nat (sint d) < 2 ^ 31" by (simp add: mult.commute)
  with dpos have "?P < 2 ^ 31" by (rule factor_less)
  with r have "sint (prod_list r) = int ?P" by (rule Cons.IH)
  with dn have "sint (d * prod_list r) = int (nat (sint d) * ?P)"
    using b by (rule sint_mult_lift)
  then show ?case by simp
qed

lemma list_all2_5D:
  assumes "list_all2 P i [a, b, c, d, e]"
  obtains i0 i1 i2 i3 i4 where "i = [i0, i1, i2, i3, i4]" "P i0 a" "P i1 b" "P i2 c" "P i3 d" "P i4 e"
  using assms by (auto simp: list_all2_Cons2)

lemma list_all2_4D:
  assumes "list_all2 P i [a, b, c, d]"
  obtains i0 i1 i2 i3 where "i = [i0, i1, i2, i3]" "P i0 a" "P i1 b" "P i2 c" "P i3 d"
  using assms by (auto simp: list_all2_Cons2)

lemma layout_ok_5:
  fixes n c h w d :: int32
  assumes pos: "0 < sint n" "0 < sint c" "0 < sint h" "0 < sint w" "0 < sint d"
    and bound: "nat (sint n) * nat (sint c) * nat (sint h) * nat (sint w) * nat (sint d) < 2 ^ 31"
  shows "layout_ok [n, c, h, w, d] [c * h * w * d, h * w * d, w * d, d, 1]
           (nat (sint n) * nat (sint c) * nat (sint h) * nat (sint w) * nat (sint d))"
    and "layout_ok [n, c, h, w, d] [c * h * w * d, 1, w * d * c, d * c, c]
           (nat (sint n) * nat (sint c) * nat (sint h) * nat (sint w) * nat (sint d))"
proof -
  define N C H W D where "N = nat (sint n)" and "C = nat (sint c)" and "H = nat (sint h)"
    and "W = nat (sint w)" and "D = nat (sint d)"
  note defs = N_def C_def H_def W_def D_def
  from pos have p: "0 < N" "0 < C" "0 < H" "0 < W" "0 < D"
    and l: "sint n = int N" "sint c = int C" "sint h = int H" "sint w = int W" "sint d = int D"
    by (simp_all add: defs)
  from bound have B: "N * C * H * W * D < 2 ^ 31" by (simp add: defs)
  have b_ch: "C * H < 2 ^ 31"
    by (rule factor_less [where k = "N * W * D"]) (use p B in \<open>simp_all add: mult_ac\<close>)
  have b_chw: "C * H * W < 2 ^ 31"
    by (rule factor_less [where k = "N * D"]) (use p B in \<open>simp_all add: mult_ac\<close>)
  have b_chwd: "C * H * W * D < 2 ^ 31"
    by (rule factor_less [where k = "N"]) (use p B in \<open>simp_all add: mult_ac\<close>)
  have b_hw: "H * W < 2 ^ 31"
    by (rule factor_less [where k = "N * C * D"]) (use p B in \<open>simp_all add: mult_ac\<close>)
  have b_hwd: "H * W * D < 2 ^ 31"
    by (rule factor_less [where k = "N * C"]) (use p B in \<open>simp_all add: mult_ac\<close>)
  have b_wd: "W * D < 2 ^ 31"
    by (rule factor_less [where k = "N * C * H"]) (use p B in \<open>simp_all add: mult_ac\<close>)
  have b_wdc: "W * D * C < 2 ^ 31"
    by (rule factor_less [where k = "N * H"]) (use p B in \<open>simp_all add: mult_ac\<close>)
  have b_dc: "D * C < 2 ^ 31"
    by (rule factor_less [where k = "N * H * W"]) (use p B in \<open>simp_all add: mult_ac\<close>)
  have s_ch: "sint (c * h) = int (C * H)"
    using l(2) l(3) b_ch by (rule sint_mult_lift)
  have s_chw: "sint (c * h * w) = int (C * H * W)"
    using s_ch l(4) b_chw by (rule sint_mult_lift)
  have s_chwd: "sint (c * h * w * d) = int (C * H * W * D)"
    using s_chw l(5) b_chwd by (rule sint_mult_lift)
  have s_hw: "sint (h * w) = int (H * W)"
    using l(3) l(4) b_hw by (rule sint_mult_lift)
  have s_hwd: "sint (h * w * d) = int (H * W * D)"
    using s_hw l(5) b_hwd by (rule sint_mult_lift)
  have s_wd: "sint (w * d) = int (W * D)"
    using l(4) l(5) b_wd by (rule sint_mult_lift)
  have s_wdc: "sint (w * d * c) = int (W * D * C)"
    using s_wd l(2) b_wdc by (rule sint_mult_lift)
  have s_dc: "sint (d * c) = int (D * C)"
    using l(5) l(2) b_dc by (rule sint_mult_lift)
  have ds: "map (\<lambda>d. nat (sint d)) [n, c, h, w, d] = [N, C, H, W, D]"
    by (simp add: defs)
  have A: "layout_ok [n, c, h, w, d] [c * h * w * d, h * w * d, w * d, d, 1] (N * C * H * W * D)"
  proof (rule layout_okI [where As = "[D, W, H, C, N]" and p = rev])
    show "prod_list (map (\<lambda>d. nat (sint d)) [n, c, h, w, d]) = N * C * H * W * D"
      unfolding ds by simp
    show "prod_list [D, W, H, C, N] = N * C * H * W * D" by simp
  next
    fix i assume "list_all2 (<) i (map (\<lambda>d. nat (sint d)) [n, c, h, w, d])"
    then have "list_all2 (<) i [N, C, H, W, D]" unfolding ds .
    then obtain i0 i1 i2 i3 i4 where i: "i = [i0, i1, i2, i3, i4]"
      and "i0 < N" "i1 < C" "i2 < H" "i3 < W" "i4 < D"
      by (rule list_all2_5D)
    then show "offset (map sint [c * h * w * d, h * w * d, w * d, d, 1]) i
                 = int (mixed_radix [D, W, H, C, N] (rev i))
               \<and> list_all2 (<) (rev i) [D, W, H, C, N]"
      by (simp add: s_chwd s_hwd s_wd l, simp add: algebra_simps)
  next
    fix i j :: "nat list" assume "rev i = rev j"
    then show "i = j" by simp
  qed
  have B: "layout_ok [n, c, h, w, d] [c * h * w * d, 1, w * d * c, d * c, c] (N * C * H * W * D)"
  proof (rule layout_okI [where As = "[C, D, W, H, N]"
        and p = "\<lambda>i. [i ! 1, i ! 4, i ! 3, i ! 2, i ! 0]"])
    show "prod_list (map (\<lambda>d. nat (sint d)) [n, c, h, w, d]) = N * C * H * W * D"
      unfolding ds by simp
    show "prod_list [C, D, W, H, N] = N * C * H * W * D" by simp
  next
    fix i assume "list_all2 (<) i (map (\<lambda>d. nat (sint d)) [n, c, h, w, d])"
    then have "list_all2 (<) i [N, C, H, W, D]" unfolding ds .
    then obtain i0 i1 i2 i3 i4 where i: "i = [i0, i1, i2, i3, i4]"
      and "i0 < N" "i1 < C" "i2 < H" "i3 < W" "i4 < D"
      by (rule list_all2_5D)
    then show "offset (map sint [c * h * w * d, 1, w * d * c, d * c, c]) i
                 = int (mixed_radix [C, D, W, H, N] [i ! 1, i ! 4, i ! 3, i ! 2, i ! 0])
               \<and> list_all2 (<) [i ! 1, i ! 4, i ! 3, i ! 2, i ! 0] [C, D, W, H, N]"
      by (simp add: s_chwd s_wdc s_dc l, simp add: algebra_simps)
  next
    fix i j
    assume "list_all2 (<) i (map (\<lambda>d. nat (sint d)) [n, c, h, w, d])"
      "list_all2 (<) j (map (\<lambda>d. nat (sint d)) [n, c, h, w, d])"
      and eq: "[i ! 1, i ! 4, i ! 3, i ! 2, i ! 0] = [j ! 1, j ! 4, j ! 3, j ! 2, j ! 0]"
    then have "list_all2 (<) i [N, C, H, W, D]" "list_all2 (<) j [N, C, H, W, D]"
      unfolding ds by simp_all
    then obtain i0 i1 i2 i3 i4 j0 j1 j2 j3 j4
      where "i = [i0, i1, i2, i3, i4]" "j = [j0, j1, j2, j3, j4]"
      by (auto elim!: list_all2_5D)
    with eq show "i = j" by simp
  qed
  from A show "layout_ok [n, c, h, w, d] [c * h * w * d, h * w * d, w * d, d, 1]
           (nat (sint n) * nat (sint c) * nat (sint h) * nat (sint w) * nat (sint d))"
    by (simp add: defs)
  from B show "layout_ok [n, c, h, w, d] [c * h * w * d, 1, w * d * c, d * c, c]
           (nat (sint n) * nat (sint c) * nat (sint h) * nat (sint w) * nat (sint d))"
    by (simp add: defs)
qed

lemma layout_ok_4:
  fixes n c h w :: int32
  assumes pos: "0 < sint n" "0 < sint c" "0 < sint h" "0 < sint w"
    and bound: "nat (sint n) * nat (sint c) * nat (sint h) * nat (sint w) < 2 ^ 31"
  shows "layout_ok [n, c, h, w] [c * h * w, h * w, w, 1]
           (nat (sint n) * nat (sint c) * nat (sint h) * nat (sint w))"
    and "layout_ok [n, c, h, w] [h * w * c, 1, w * c, c]
           (nat (sint n) * nat (sint c) * nat (sint h) * nat (sint w))"
proof -
  define N C H W where "N = nat (sint n)" and "C = nat (sint c)" and "H = nat (sint h)"
    and "W = nat (sint w)"
  note defs = N_def C_def H_def W_def
  from pos have p: "0 < N" "0 < C" "0 < H" "0 < W"
    and l: "sint n = int N" "sint c = int C" "sint h = int H" "sint w = int W"
    by (simp_all add: defs)
  from bound have B: "N * C * H * W < 2 ^ 31" by (simp add: defs)
  have b_ch: "C * H < 2 ^ 31"
    by (rule factor_less [where k = "N * W"]) (use p B in \<open>simp_all add: mult_ac\<close>)
  have b_chw: "C * H * W < 2 ^ 31"
    by (rule factor_less [where k = "N"]) (use p B in \<open>simp_all add: mult_ac\<close>)
  have b_hw: "H * W < 2 ^ 31"
    by (rule factor_less [where k = "N * C"]) (use p B in \<open>simp_all add: mult_ac\<close>)
  have b_hwc: "H * W * C < 2 ^ 31"
    by (rule factor_less [where k = "N"]) (use p B in \<open>simp_all add: mult_ac\<close>)
  have b_wc: "W * C < 2 ^ 31"
    by (rule factor_less [where k = "N * H"]) (use p B in \<open>simp_all add: mult_ac\<close>)
  have s_ch: "sint (c * h) = int (C * H)"
    using l(2) l(3) b_ch by (rule sint_mult_lift)
  have s_chw: "sint (c * h * w) = int (C * H * W)"
    using s_ch l(4) b_chw by (rule sint_mult_lift)
  have s_hw: "sint (h * w) = int (H * W)"
    using l(3) l(4) b_hw by (rule sint_mult_lift)
  have s_hwc: "sint (h * w * c) = int (H * W * C)"
    using s_hw l(2) b_hwc by (rule sint_mult_lift)
  have s_wc: "sint (w * c) = int (W * C)"
    using l(4) l(2) b_wc by (rule sint_mult_lift)
  have ds: "map (\<lambda>d. nat (sint d)) [n, c, h, w] = [N, C, H, W]"
    by (simp add: defs)
  have A: "layout_ok [n, c, h, w] [c * h * w, h * w, w, 1] (N * C * H * W)"
  proof (rule layout_okI [where As = "[W, H, C, N]" and p = rev])
    show "prod_list (map (\<lambda>d. nat (sint d)) [n, c, h, w]) = N * C * H * W"
      unfolding ds by simp
    show "prod_list [W, H, C, N] = N * C * H * W" by simp
  next
    fix i assume "list_all2 (<) i (map (\<lambda>d. nat (sint d)) [n, c, h, w])"
    then have "list_all2 (<) i [N, C, H, W]" unfolding ds .
    then obtain i0 i1 i2 i3 where i: "i = [i0, i1, i2, i3]"
      and "i0 < N" "i1 < C" "i2 < H" "i3 < W"
      by (rule list_all2_4D)
    then show "offset (map sint [c * h * w, h * w, w, 1]) i
                 = int (mixed_radix [W, H, C, N] (rev i))
               \<and> list_all2 (<) (rev i) [W, H, C, N]"
      by (simp add: s_chw s_hw l, simp add: algebra_simps)
  next
    fix i j :: "nat list" assume "rev i = rev j"
    then show "i = j" by simp
  qed
  have B: "layout_ok [n, c, h, w] [h * w * c, 1, w * c, c] (N * C * H * W)"
  proof (rule layout_okI [where As = "[C, W, H, N]"
        and p = "\<lambda>i. [i ! 1, i ! 3, i ! 2, i ! 0]"])
    show "prod_list (map (\<lambda>d. nat (sint d)) [n, c, h, w]) = N * C * H * W"
      unfolding ds by simp
    show "prod_list [C, W, H, N] = N * C * H * W" by simp
  next
    fix i assume "list_all2 (<) i (map (\<lambda>d. nat (sint d)) [n, c, h, w])"
    then have "list_all2 (<) i [N, C, H, W]" unfolding ds .
    then obtain i0 i1 i2 i3 where i: "i = [i0, i1, i2, i3]"
      and "i0 < N" "i1 < C" "i2 < H" "i3 < W"
      by (rule list_all2_4D)
    then show "offset (map sint [h * w * c, 1, w * c, c]) i
                 = int (mixed_radix [C, W, H, N] [i ! 1, i ! 3, i ! 2, i ! 0])
               \<and> list_all2 (<) [i ! 1, i ! 3, i ! 2, i ! 0] [C, W, H, N]"
      by (simp add: s_hwc s_wc l, simp add: algebra_simps)
  next
    fix i j
    assume "list_all2 (<) i (map (\<lambda>d. nat (sint d)) [n, c, h, w])"
      "list_all2 (<) j (map (\<lambda>d. nat (sint d)) [n, c, h, w])"
      and eq: "[i ! 1, i ! 3, i ! 2, i ! 0] = [j ! 1, j ! 3, j ! 2, j ! 0]"
    then have "list_all2 (<) i [N, C, H, W]" "list_all2 (<) j [N, C, H, W]"
      unfolding ds by simp_all
    then obtain i0 i1 i2 i3 j0 j1 j2 j3
      where "i = [i0, i1, i2, i3]" "j = [j0, j1, j2, j3]"
      by (auto elim!: list_all2_4D)
    with eq show "i = j" by simp
  qed
  from A show "layout_ok [n, c, h, w] [c * h * w, h * w, w, 1]
           (nat (sint n) * nat (sint c) * nat (sint h) * nat (sint w))"
    by (simp add: defs)
  from B show "layout_ok [n, c, h, w] [h * w * c, 1, w * c, c]
           (nat (sint n) * nat (sint c) * nat (sint h) * nat (sint w))"
    by (simp add: defs)
qed

lemma prod_list_pos:
  fixes r :: "int32 list"
  assumes "\<forall>d \<in> set r. 0 < sint d"
  shows "0 < prod_list (map (\<lambda>d. nat (sint d)) r)"
  using assms by (induction r) simp_all

lemma descriptor_layouts:
  assumes rank: "3 \<le> length X_dims"
    and pos: "\<forall>d \<in> set X_dims. 0 < sint d"
    and bound: "numel X_dims < 2 ^ 31"
    and Y: "NHWC2NCHW_Y_dims X_dims = Inr Y_dims"
  shows "\<exists>ds sa sb.
           layout_ok ds sa (numel X_dims) \<and> layout_ok ds sb (numel X_dims)
         \<and> (\<forall>dt. SetTensorDescriptor dt NHWC X_dims =
                    Inr \<lparr>dataType = dt, nbDims = length ds, dimA = ds, strideA = sa\<rparr>
                \<and> SetTensorDescriptor dt NCHW Y_dims =
                    Inr \<lparr>dataType = dt, nbDims = length ds, dimA = ds, strideA = sb\<rparr>)"
proof -
  from rank obtain n h m c where X: "X_dims = n # h # m @ [c]"
    using split_rank3 [of X_dims] by auto
  have "NHWC2NCHW_Y_dims (n # (h # m) @ [c]) = Inr (n # c # h # m)"
    by (rule NHWC2NCHW_Y_dims_ends)
  with Y X have Yd: "Y_dims = n # c # h # m" by simp
  from pos X have p: "0 < sint n" "0 < sint h" "0 < sint c" and pm: "\<forall>d \<in> set m. 0 < sint d"
    by simp_all
  have one: "0 < sint (1 :: int32)" by simp
  show ?thesis
  proof (cases m)
    case Nil
    from bound have b: "nat (sint n) * nat (sint c) * nat (sint (1 :: int32)) * nat (sint h) < 2 ^ 31"
      by (simp add: X Nil numel_def mult_ac)
    have ne: "numel X_dims = nat (sint n) * nat (sint c) * nat (sint (1 :: int32)) * nat (sint h)"
      by (simp add: X Nil numel_def mult_ac)
    have "layout_ok [n, c, 1, h] [1 * h * c, 1, h * c, c] (numel X_dims)"
      unfolding ne using p(1) p(3) one p(2) b by (rule layout_ok_4(2))
    moreover have "layout_ok [n, c, 1, h] [c * 1 * h, 1 * h, h, 1] (numel X_dims)"
      unfolding ne using p(1) p(3) one p(2) b by (rule layout_ok_4(1))
    moreover have "SetTensorDescriptor dt NHWC X_dims =
        Inr \<lparr>dataType = dt, nbDims = length [n, c, 1, h], dimA = [n, c, 1, h],
             strideA = [1 * h * c, 1, h * c, c]\<rparr>" for dt
      unfolding X Nil using SetTensorDescriptor_NHWC_rank3 [of dt n h c] by simp
    moreover have "SetTensorDescriptor dt NCHW Y_dims =
        Inr \<lparr>dataType = dt, nbDims = length [n, c, 1, h], dimA = [n, c, 1, h],
             strideA = [c * 1 * h, 1 * h, h, 1]\<rparr>" for dt
      unfolding Yd Nil using SetTensorDescriptor_NCHW_rank3 [of dt n c h] by simp
    ultimately show ?thesis by blast
  next
    case (Cons w r)
    from pm Cons have pw: "0 < sint w" and pr: "\<forall>d \<in> set r. 0 < sint d" by simp_all
    show ?thesis
    proof (cases r)
      case Nil
      from bound have b: "nat (sint n) * nat (sint c) * nat (sint h) * nat (sint w) < 2 ^ 31"
        by (simp add: X Cons Nil numel_def mult_ac)
      have ne: "numel X_dims = nat (sint n) * nat (sint c) * nat (sint h) * nat (sint w)"
        by (simp add: X Cons Nil numel_def mult_ac)
      have "layout_ok [n, c, h, w] [h * w * c, 1, w * c, c] (numel X_dims)"
        unfolding ne using p(1) p(3) p(2) pw b by (rule layout_ok_4(2))
      moreover have "layout_ok [n, c, h, w] [c * h * w, h * w, w, 1] (numel X_dims)"
        unfolding ne using p(1) p(3) p(2) pw b by (rule layout_ok_4(1))
      moreover have "SetTensorDescriptor dt NHWC X_dims =
          Inr \<lparr>dataType = dt, nbDims = length [n, c, h, w], dimA = [n, c, h, w],
               strideA = [h * w * c, 1, w * c, c]\<rparr>" for dt
        unfolding X Cons Nil using SetTensorDescriptor_NHWC_rank4 [of dt n h w c] by simp
      moreover have "SetTensorDescriptor dt NCHW Y_dims =
          Inr \<lparr>dataType = dt, nbDims = length [n, c, h, w], dimA = [n, c, h, w],
               strideA = [c * h * w, h * w, w, 1]\<rparr>" for dt
        unfolding Yd Cons Nil using SetTensorDescriptor_NCHW_rank4 [of dt n c h w] by simp
      ultimately show ?thesis by blast
    next
      case (Cons d r')
      then have rne: "r \<noteq> []" by simp
      let ?D = "prod_list r" and ?Dn = "prod_list (map (\<lambda>d. nat (sint d)) r)"
      have ne0: "numel X_dims = nat (sint n) * nat (sint c) * nat (sint h) * nat (sint w) * ?Dn"
        by (simp add: X \<open>m = w # r\<close> numel_def mult_ac)
      have Dpos: "0 < ?Dn" using pr by (rule prod_list_pos)
      have "?Dn * (nat (sint n) * nat (sint c) * nat (sint h) * nat (sint w)) < 2 ^ 31"
        using bound by (simp add: ne0 mult_ac)
      moreover have "0 < nat (sint n) * nat (sint c) * nat (sint h) * nat (sint w)"
        using p pw by simp
      ultimately have "?Dn < 2 ^ 31" by (rule factor_less [rotated])
      with pr have sD: "sint ?D = int ?Dn" by (rule sint_prod_list_lift)
      with Dpos have pD: "0 < sint ?D" and nD: "nat (sint ?D) = ?Dn" by simp_all
      have ne: "numel X_dims
                  = nat (sint n) * nat (sint c) * nat (sint h) * nat (sint w) * nat (sint ?D)"
        by (simp add: ne0 nD)
      from bound have b: "nat (sint n) * nat (sint c) * nat (sint h) * nat (sint w) * nat (sint ?D)
                            < 2 ^ 31"
        by (simp add: ne)
      have "layout_ok [n, c, h, w, ?D] [c * h * w * ?D, 1, w * ?D * c, ?D * c, c] (numel X_dims)"
        unfolding ne using p(1) p(3) p(2) pw pD b by (rule layout_ok_5(2))
      moreover have "layout_ok [n, c, h, w, ?D] [c * h * w * ?D, h * w * ?D, w * ?D, ?D, 1]
                       (numel X_dims)"
        unfolding ne using p(1) p(3) p(2) pw pD b by (rule layout_ok_5(1))
      moreover have "SetTensorDescriptor dt NHWC X_dims =
          Inr \<lparr>dataType = dt, nbDims = length [n, c, h, w, ?D], dimA = [n, c, h, w, ?D],
               strideA = [c * h * w * ?D, 1, w * ?D * c, ?D * c, c]\<rparr>" for dt
        unfolding X \<open>m = w # r\<close>
        using SetTensorDescriptor_NHWC_rank5 [OF rne, of dt n h w c] by simp
      moreover have "SetTensorDescriptor dt NCHW Y_dims =
          Inr \<lparr>dataType = dt, nbDims = length [n, c, h, w, ?D], dimA = [n, c, h, w, ?D],
               strideA = [c * h * w * ?D, h * w * ?D, w * ?D, ?D, 1]\<rparr>" for dt
        unfolding Yd \<open>m = w # r\<close>
        using SetTensorDescriptor_NCHW_rank5 [OF rne, of dt n c h w] by simp
      ultimately show ?thesis by blast
    qed
  qed
qed

section \<open>The two halves of a call, in the operators\<close>

lemma NHWC2NCHW_DoRunWithType_split:
  "NHWC2NCHW_DoRunWithType t u X (st, Y) =
     (case NHWC2NCHW_Y_dims (sizes X) of
        Inl e \<Rightarrow> (Inl e, st, Y)
      | Inr Y_dims \<Rightarrow>
         (case refresh_descriptors t NHWC NCHW (sizes X) Y_dims st of
            (Inl e, st') \<Rightarrow> (Inl e, st', Resize Y Y_dims)
          | (Inr v, st') \<Rightarrow> transform_into t u X st' (Resize Y Y_dims)))"
  by (simp add: NHWC2NCHW_DoRunWithType_def refresh_descriptors_def transform_into_def Let_def
      split: sum.splits)

lemma NCHW2NHWC_DoRunWithType_split:
  "NCHW2NHWC_DoRunWithType t u X (st, Y) =
     (case NCHW2NHWC_Y_dims (sizes X) of
        Inl e \<Rightarrow> (Inl e, st, Y)
      | Inr Y_dims \<Rightarrow>
         (case refresh_descriptors t NCHW NHWC (sizes X) Y_dims st of
            (Inl e, st') \<Rightarrow> (Inl e, st', Resize Y Y_dims)
          | (Inr v, st') \<Rightarrow> transform_into t u X st' (Resize Y Y_dims)))"
  by (simp add: NCHW2NHWC_DoRunWithType_def refresh_descriptors_def transform_into_def Let_def
      split: sum.splits)

lemma refresh_descriptors_ok:
  assumes DX: "\<And>dt. SetTensorDescriptor dt order_X X_dims =
                  Inr \<lparr>dataType = dt, nbDims = k, dimA = ds, strideA = sa\<rparr>"
    and DY: "\<And>dt. SetTensorDescriptor dt order_Y Y_dims =
                  Inr \<lparr>dataType = dt, nbDims = k, dimA = ds, strideA = sb\<rparr>"
    and hit: "cached_X_dims st = X_dims \<Longrightarrow>
                descriptors_derived (cudnnTypeWrapper_type t) order_X order_Y X_dims
                  (Inr Y_dims) st"
  shows "\<exists>st'. refresh_descriptors t order_X order_Y X_dims Y_dims st = (Inr (), st')
           \<and> cached_X_dims st' = X_dims
           \<and> X_desc st' = Some \<lparr>dataType = cudnnTypeWrapper_type t, nbDims = k, dimA = ds,
                                strideA = sa\<rparr>
           \<and> Y_desc st' = Some \<lparr>dataType = cudnnTypeWrapper_type t, nbDims = k, dimA = ds,
                                strideA = sb\<rparr>"
proof (cases "cached_X_dims st = X_dims")
  case True
  then have r: "refresh_descriptors t order_X order_Y X_dims Y_dims st = (Inr (), st)"
    by (simp add: refresh_descriptors_def)
  from hit [OF True]
  have "X_desc st = Some \<lparr>dataType = cudnnTypeWrapper_type t, nbDims = k, dimA = ds,
                          strideA = sa\<rparr>"
    and "Y_desc st = Some \<lparr>dataType = cudnnTypeWrapper_type t, nbDims = k, dimA = ds,
                          strideA = sb\<rparr>"
    by (auto simp: descriptors_derived_def DX DY split: option.splits)
  with r True show ?thesis by blast
next
  case False
  then show ?thesis
    by (simp add: refresh_descriptors_def DX DY)
qed

lemma transform_into_ok:
  assumes xd: "X_desc st = Some \<lparr>dataType = cudnnTypeWrapper_type t, nbDims = k, dimA = ds,
                                 strideA = sa\<rparr>"
    and yd: "Y_desc st = Some \<lparr>dataType = cudnnTypeWrapper_type t, nbDims = k, dimA = ds,
                                 strideA = sb\<rparr>"
    and oka: "layout_ok ds sa n" and okb: "layout_ok ds sb n"
    and lx: "length (data X) = n" and ny: "numel (sizes Y) = n"
  shows "\<exists>y'. transform_into t u X st Y =
                 (Inr True, st, \<lparr>meta = TypeMeta_Make t, sizes = sizes Y, data = y'\<rparr>)
           \<and> length y' = n
           \<and> (\<forall>i \<in> set (multi_indices (map (\<lambda>d. nat (sint d)) ds)).
                 y' ! nat (offset (map sint sb) i) = data X ! nat (offset (map sint sa) i))"
proof -
  let ?a = "\<lparr>dataType = cudnnTypeWrapper_type t, nbDims = k, dimA = ds, strideA = sa\<rparr>"
  let ?b = "\<lparr>dataType = cudnnTypeWrapper_type t, nbDims = k, dimA = ds, strideA = sb\<rparr>"
  let ?Y = "mutable_data t u Y"
  have ly: "length (data ?Y) = n"
    using ny by (simp add: mutable_data_def)
  have "\<exists>y'. cudnnTransformTensor (cudnnTypeWrapper_type t) (Some ?a) (data X) (Some ?b)
               (data ?Y) = Inr y'
           \<and> length y' = n
           \<and> (\<forall>i \<in> set (multi_indices (map (\<lambda>d. nat (sint d)) (dimA ?a))).
                 y' ! nat (offset (map sint (strideA ?b)) i)
                   = data X ! nat (offset (map sint (strideA ?a)) i))"
    using oka okb lx ly by (intro cudnnTransformTensor_relayout) simp_all
  then obtain y' where run: "cudnnTransformTensor (cudnnTypeWrapper_type t) (Some ?a) (data X)
                               (Some ?b) (data ?Y) = Inr y'"
    and len: "length y' = n"
    and rel: "\<forall>i \<in> set (multi_indices (map (\<lambda>d. nat (sint d)) ds)).
                 y' ! nat (offset (map sint sb) i) = data X ! nat (offset (map sint sa) i)"
    by auto
  have "transform_into t u X st Y =
          (Inr True, st, \<lparr>meta = TypeMeta_Make t, sizes = sizes Y, data = y'\<rparr>)"
    unfolding transform_into_def Let_def xd yd run
    by (simp add: mutable_data_def)
  with len rel show ?thesis by blast
qed

section \<open>The invariant of the cache\<close>

text \<open>
  \<open>NHWC2NCHW_cache_ok\<close> and \<open>NCHW2NHWC_cache_ok\<close> hold of a new operator, and a
  call keeps them when the element type of its input is the one of the invariant or is
  not supported.
\<close>

lemma SetTensorDescriptor_NHWC_total:
  assumes "3 \<le> length dims"
  shows "\<exists>d. SetTensorDescriptor dt NHWC dims = Inr d"
proof -
  from assms obtain n h m c where X: "dims = n # h # m @ [c]"
    using split_rank3 [of dims] by auto
  show ?thesis
  proof (cases m)
    case Nil
    with X show ?thesis using SetTensorDescriptor_NHWC_rank3 [of dt n h c] by simp
  next
    case (Cons w r)
    show ?thesis
    proof (cases r)
      case Nil
      with X Cons show ?thesis using SetTensorDescriptor_NHWC_rank4 [of dt n h w c] by simp
    next
      case (Cons d r')
      then have "r \<noteq> []" by simp
      from SetTensorDescriptor_NHWC_rank5 [OF this, of dt n h w c] X \<open>m = w # r\<close>
      show ?thesis by simp
    qed
  qed
qed

lemma SetTensorDescriptor_NCHW_total:
  assumes "3 \<le> length dims"
  shows "\<exists>d. SetTensorDescriptor dt NCHW dims = Inr d"
proof -
  from assms obtain n c x r where X: "dims = n # c # x # r"
    by (cases dims; cases "tl dims"; cases "tl (tl dims)") auto
  show ?thesis
  proof (cases r)
    case Nil
    with X show ?thesis using SetTensorDescriptor_NCHW_rank3 [of dt n c x] by simp
  next
    case (Cons w r')
    show ?thesis
    proof (cases r')
      case Nil
      with X Cons show ?thesis using SetTensorDescriptor_NCHW_rank4 [of dt n c x w] by simp
    next
      case (Cons d r'')
      then have "r' \<noteq> []" by simp
      from SetTensorDescriptor_NCHW_rank5 [OF this, of dt n c x w] X \<open>r = w # r'\<close>
      show ?thesis by simp
    qed
  qed
qed

lemma refresh_descriptors_keeps_invariant:
  assumes tot: "3 \<le> length X_dims \<Longrightarrow>
                  (\<exists>d. SetTensorDescriptor (cudnnTypeWrapper_type t) order_X X_dims = Inr d)
                \<and> (\<exists>d. SetTensorDescriptor (cudnnTypeWrapper_type t) order_Y Y_dims = Inr d)"
    and inv: "3 \<le> length (cached_X_dims st) \<longrightarrow>
                descriptors_derived (cudnnTypeWrapper_type t) order_X order_Y (cached_X_dims st)
                  (F (cached_X_dims st)) st"
    and F: "F X_dims = Inr Y_dims"
    and st': "st' = snd (refresh_descriptors t order_X order_Y X_dims Y_dims st)"
  shows "3 \<le> length (cached_X_dims st') \<longrightarrow>
                descriptors_derived (cudnnTypeWrapper_type t) order_X order_Y (cached_X_dims st')
                  (F (cached_X_dims st')) st'"
proof (cases "cached_X_dims st = X_dims")
  case True
  then have "st' = st" by (simp add: st' refresh_descriptors_def)
  with inv show ?thesis by simp
next
  case False
  show ?thesis
  proof (cases "3 \<le> length X_dims")
    case True
    from tot [OF True] obtain xd yd
      where xd: "SetTensorDescriptor (cudnnTypeWrapper_type t) order_X X_dims = Inr xd"
        and yd: "SetTensorDescriptor (cudnnTypeWrapper_type t) order_Y Y_dims = Inr yd"
      by blast
    from False have "st' = st\<lparr>cached_X_dims := X_dims, X_desc := Some xd, Y_desc := Some yd\<rparr>"
      by (simp add: st' refresh_descriptors_def xd yd)
    then have "cached_X_dims st' = X_dims"
      and "descriptors_derived (cudnnTypeWrapper_type t) order_X order_Y X_dims (Inr Y_dims) st'"
      by (simp_all add: descriptors_derived_def xd yd)
    then show ?thesis by (simp add: F)
  next
    case short: False
    from False have "cached_X_dims st' = X_dims"
      by (simp add: st' refresh_descriptors_def Let_def split: sum.splits)
    with short show ?thesis by simp
  qed
qed

lemma transform_into_state: "fst (snd (transform_into t u X st Y)) = st"
  by (simp add: transform_into_def Let_def split: sum.splits)

lemma Y_dims_lengths:
  "NHWC2NCHW_Y_dims X_dims = Inr Y_dims \<Longrightarrow> length Y_dims = length X_dims"
  "NCHW2NHWC_Y_dims X_dims = Inr Y_dims \<Longrightarrow> length Y_dims = length X_dims"
  by (auto simp: NHWC2NCHW_Y_dims_def NCHW2NHWC_Y_dims_def Let_def bind_err_def dim32_def
      vec_at_def vec_set_def std_copy_def split: if_splits)

lemma cache_ok_new:
  "NHWC2NCHW_cache_ok dt CuDNNOrderSwithOpBase" "NCHW2NHWC_cache_ok dt CuDNNOrderSwithOpBase"
  by (simp_all add: NHWC2NCHW_cache_ok_def NCHW2NHWC_cache_ok_def CuDNNOrderSwithOpBase_def)

lemma NHWC2NCHW_DoRunWithType_cache_ok:
  assumes "NHWC2NCHW_cache_ok (cudnnTypeWrapper_type t) st"
  shows "NHWC2NCHW_cache_ok (cudnnTypeWrapper_type t)
           (fst (snd (NHWC2NCHW_DoRunWithType t u X (st, Y))))"
proof (cases "NHWC2NCHW_Y_dims (sizes X)")
  case (Inl e)
  with assms show ?thesis by (simp add: NHWC2NCHW_DoRunWithType_split)
next
  case (Inr Y_dims)
  let ?st' = "snd (refresh_descriptors t NHWC NCHW (sizes X) Y_dims st)"
  have st: "fst (snd (NHWC2NCHW_DoRunWithType t u X (st, Y))) = ?st'"
    by (simp add: NHWC2NCHW_DoRunWithType_split Inr transform_into_state
        split: prod.splits sum.splits)
  have "3 \<le> length (cached_X_dims ?st') \<longrightarrow>
          descriptors_derived (cudnnTypeWrapper_type t) NHWC NCHW (cached_X_dims ?st')
            (NHWC2NCHW_Y_dims (cached_X_dims ?st')) ?st'"
  proof (rule refresh_descriptors_keeps_invariant [where F = NHWC2NCHW_Y_dims])
    assume "3 \<le> length (sizes X)"
    with Y_dims_lengths(1) [OF Inr]
    show "(\<exists>d. SetTensorDescriptor (cudnnTypeWrapper_type t) NHWC (sizes X) = Inr d)
        \<and> (\<exists>d. SetTensorDescriptor (cudnnTypeWrapper_type t) NCHW Y_dims = Inr d)"
      by (simp add: SetTensorDescriptor_NHWC_total SetTensorDescriptor_NCHW_total)
  next
    show "3 \<le> length (cached_X_dims st) \<longrightarrow>
          descriptors_derived (cudnnTypeWrapper_type t) NHWC NCHW (cached_X_dims st)
            (NHWC2NCHW_Y_dims (cached_X_dims st)) st"
      using assms by (simp add: NHWC2NCHW_cache_ok_def)
  qed (simp_all add: Inr)
  then show ?thesis
    unfolding st by (simp add: NHWC2NCHW_cache_ok_def)
qed

lemma NCHW2NHWC_DoRunWithType_cache_ok:
  assumes "NCHW2NHWC_cache_ok (cudnnTypeWrapper_type t) st"
  shows "NCHW2NHWC_cache_ok (cudnnTypeWrapper_type t)
           (fst (snd (NCHW2NHWC_DoRunWithType t u X (st, Y))))"
proof (cases "NCHW2NHWC_Y_dims (sizes X)")
  case (Inl e)
  with assms show ?thesis by (simp add: NCHW2NHWC_DoRunWithType_split)
next
  case (Inr Y_dims)
  let ?st' = "snd (refresh_descriptors t NCHW NHWC (sizes X) Y_dims st)"
  have st: "fst (snd (NCHW2NHWC_DoRunWithType t u X (st, Y))) = ?st'"
    by (simp add: NCHW2NHWC_DoRunWithType_split Inr transform_into_state
        split: prod.splits sum.splits)
  have "3 \<le> length (cached_X_dims ?st') \<longrightarrow>
          descriptors_derived (cudnnTypeWrapper_type t) NCHW NHWC (cached_X_dims ?st')
            (NCHW2NHWC_Y_dims (cached_X_dims ?st')) ?st'"
  proof (rule refresh_descriptors_keeps_invariant [where F = NCHW2NHWC_Y_dims])
    assume "3 \<le> length (sizes X)"
    with Y_dims_lengths(2) [OF Inr]
    show "(\<exists>d. SetTensorDescriptor (cudnnTypeWrapper_type t) NCHW (sizes X) = Inr d)
        \<and> (\<exists>d. SetTensorDescriptor (cudnnTypeWrapper_type t) NHWC Y_dims = Inr d)"
      by (simp add: SetTensorDescriptor_NHWC_total SetTensorDescriptor_NCHW_total)
  next
    show "3 \<le> length (cached_X_dims st) \<longrightarrow>
          descriptors_derived (cudnnTypeWrapper_type t) NCHW NHWC (cached_X_dims st)
            (NCHW2NHWC_Y_dims (cached_X_dims st)) st"
      using assms by (simp add: NCHW2NHWC_cache_ok_def)
  qed (simp_all add: Inr)
  then show ?thesis
    unfolding st by (simp add: NCHW2NHWC_cache_ok_def)
qed

lemma RunOnDevice_dispatch:
  assumes "meta X = TypeMeta_Make t"
  shows "NHWC2NCHW_RunOnDevice u X s = NHWC2NCHW_DoRunWithType t u X s"
    and "NCHW2NHWC_RunOnDevice u X s = NCHW2NHWC_DoRunWithType t u X s"
  using assms by (cases t; simp add: NHWC2NCHW_RunOnDevice_def NCHW2NHWC_RunOnDevice_def)+

lemma RunOnDevice_cache_ok:
  assumes "meta X = TypeMeta_Make t \<or> (meta X \<noteq> meta_float \<and> meta X \<noteq> meta_Half)"
  shows "NHWC2NCHW_cache_ok (cudnnTypeWrapper_type t) st \<Longrightarrow>
           NHWC2NCHW_cache_ok (cudnnTypeWrapper_type t)
             (fst (snd (NHWC2NCHW_RunOnDevice u X (st, Y))))"
    and "NCHW2NHWC_cache_ok (cudnnTypeWrapper_type t) st \<Longrightarrow>
           NCHW2NHWC_cache_ok (cudnnTypeWrapper_type t)
             (fst (snd (NCHW2NHWC_RunOnDevice u X (st, Y))))"
proof -
  from assms consider (same) "meta X = TypeMeta_Make t"
    | (unsupported) "meta X \<noteq> meta_float" "meta X \<noteq> meta_Half"
    by blast
  then show "NHWC2NCHW_cache_ok (cudnnTypeWrapper_type t)
               (fst (snd (NHWC2NCHW_RunOnDevice u X (st, Y))))"
    if "NHWC2NCHW_cache_ok (cudnnTypeWrapper_type t) st"
  proof cases
    case same
    show ?thesis
      unfolding RunOnDevice_dispatch(1) [OF same]
      using that by (rule NHWC2NCHW_DoRunWithType_cache_ok)
  next
    case unsupported
    with that show ?thesis by (simp add: NHWC2NCHW_RunOnDevice_def)
  qed
  from assms consider (same) "meta X = TypeMeta_Make t"
    | (unsupported) "meta X \<noteq> meta_float" "meta X \<noteq> meta_Half"
    by blast
  then show "NCHW2NHWC_cache_ok (cudnnTypeWrapper_type t)
               (fst (snd (NCHW2NHWC_RunOnDevice u X (st, Y))))"
    if "NCHW2NHWC_cache_ok (cudnnTypeWrapper_type t) st"
  proof cases
    case same
    show ?thesis
      unfolding RunOnDevice_dispatch(2) [OF same]
      using that by (rule NCHW2NHWC_DoRunWithType_cache_ok)
  next
    case unsupported
    with that show ?thesis by (simp add: NCHW2NHWC_RunOnDevice_def)
  qed
qed

text \<open>
  Whatever the outcome of the descriptor derivation, the refresh of the cache leaves the
  extents of the input in \<open>cached_X_dims\<close>; so a call that returns has cached the
  extents of its input, and a second call with an input of these extents finds them there.
\<close>

lemma refresh_descriptors_caches:
  "refresh_descriptors t order_X order_Y X_dims Y_dims st = (r, st') \<Longrightarrow>
     cached_X_dims st' = X_dims"
  by (auto simp: refresh_descriptors_def Let_def split: sum.splits if_splits)

lemma DoRunWithType_caches:
  "fst (NHWC2NCHW_DoRunWithType t u X (st, Y)) = Inr b \<Longrightarrow>
     cached_X_dims (fst (snd (NHWC2NCHW_DoRunWithType t u X (st, Y)))) = sizes X"
  "fst (NCHW2NHWC_DoRunWithType t u X (st, Y)) = Inr b \<Longrightarrow>
     cached_X_dims (fst (snd (NCHW2NHWC_DoRunWithType t u X (st, Y)))) = sizes X"
  by (auto simp: NHWC2NCHW_DoRunWithType_split NCHW2NHWC_DoRunWithType_split transform_into_state
      split: sum.splits prod.splits dest: refresh_descriptors_caches)

lemma RunOnDevice_caches:
  "fst (NHWC2NCHW_RunOnDevice u X (st, Y)) = Inr b \<Longrightarrow>
     cached_X_dims (fst (snd (NHWC2NCHW_RunOnDevice u X (st, Y)))) = sizes X"
  "fst (NCHW2NHWC_RunOnDevice u X (st, Y)) = Inr b \<Longrightarrow>
     cached_X_dims (fst (snd (NCHW2NHWC_RunOnDevice u X (st, Y)))) = sizes X"
  by (auto simp: NHWC2NCHW_RunOnDevice_def NCHW2NHWC_RunOnDevice_def DoRunWithType_caches
      split: if_splits)

text \<open>
  What the invariant excludes: an operator whose descriptors were built for 32-bit
  float and that is given a 16-bit float input of the cached extents keeps its
  descriptors, and the transform refuses them.
\<close>

lemma stale_element_type_example:
  "NCHW2NHWC_RunOnDevice (0 :: nat)
     \<lparr>meta = meta_Half, sizes = [1, 2, 3], data = [10, 20, 30, 40, 50, 60]\<rparr>
     (\<lparr>X_desc = Some \<lparr>dataType = CUDNN_DATA_FLOAT, nbDims = 4, dimA = [1, 2, 1, 3],
                       strideA = [6, 3, 3, 1]\<rparr>,
       Y_desc = Some \<lparr>dataType = CUDNN_DATA_FLOAT, nbDims = 4, dimA = [1, 2, 1, 3],
                       strideA = [6, 1, 6, 2]\<rparr>,
       cached_X_dims = [1, 2, 3]\<rparr>,
      \<lparr>meta = meta_float, sizes = [1, 3, 2], data = [10, 30, 50, 20, 40, 60]\<rparr>) =
   (Inl TransformFailure,
    \<lparr>X_desc = Some \<lparr>dataType = CUDNN_DATA_FLOAT, nbDims = 4, dimA = [1, 2, 1, 3],
                      strideA = [6, 3, 3, 1]\<rparr>,
      Y_desc = Some \<lparr>dataType = CUDNN_DATA_FLOAT, nbDims = 4, dimA = [1, 2, 1, 3],
                      strideA = [6, 1, 6, 2]\<rparr>,
      cached_X_dims = [1, 2, 3]\<rparr>,
    \<lparr>meta = meta_Half, sizes = [1, 3, 2], data = [0, 0, 0, 0, 0, 0]\<rparr>)"
  by code_simp

section \<open>Round trip\<close>

lemma Y_dims_inverse:
  assumes "3 \<le> length X_dims" "NHWC2NCHW_Y_dims X_dims = Inr Y_dims"
  shows "NCHW2NHWC_Y_dims Y_dims = Inr X_dims" "length Y_dims = length X_dims"
    "numel Y_dims = numel X_dims"
proof -
  from assms(1) obtain n h m c where X: "X_dims = n # (h # m) @ [c]"
    using split_rank3 [of X_dims] by auto
  with assms(2) have Y: "Y_dims = n # c # (h # m)"
    by (simp only: NHWC2NCHW_Y_dims_ends sum.inject)
  show "NCHW2NHWC_Y_dims Y_dims = Inr X_dims"
    unfolding X Y by (rule NCHW2NHWC_Y_dims_front)
  show "length Y_dims = length X_dims" by (simp add: X Y)
  show "numel Y_dims = numel X_dims" unfolding X Y by (rule numel_move_last)
qed

text \<open>
  Claim C8. Take an input of rank at least 3 and of a supported element type, with
  positive extents, an element count within the range of \<open>int\<close> and storage of that
  many cells. Take an instance of each operator such that, whenever its cached extents
  are those of the tensor it is given, it satisfies the invariant of the cache for the
  element type of the input: the call then finds descriptors derived for that element
  type. NHWC2NCHW on the input followed by NCHW2NHWC on its output both succeed and give
  back the element type, the extents and, cell for cell, the values of the input. The
  transform is the strided copy of \<open>cudnnTransformTensor\<close> above.
\<close>

theorem relayout_round_trip:
  fixes X :: "'a Tensor"
  assumes rank: "3 \<le> length (sizes X)"
    and pos: "\<forall>d \<in> set (sizes X). 0 < sint d"
    and bound: "numel (sizes X) < 2 ^ 31"
    and lx: "length (data X) = numel (sizes X)"
    and t: "meta X = TypeMeta_Make t"
    and inv1: "cached_X_dims st1 = sizes X \<longrightarrow>
                 NHWC2NCHW_cache_ok (cudnnTypeWrapper_type t) st1"
    and inv2: "NHWC2NCHW_Y_dims (sizes X) = Inr (cached_X_dims st2) \<longrightarrow>
                 NCHW2NHWC_cache_ok (cudnnTypeWrapper_type t) st2"
  shows "\<exists>st1' Y1' st2' Y2'.
           NHWC2NCHW_RunOnDevice u X (st1, Y1) = (Inr True, st1', Y1')
         \<and> NCHW2NHWC_RunOnDevice u' Y1' (st2, Y2) = (Inr True, st2', Y2')
         \<and> meta Y2' = meta X \<and> sizes Y2' = sizes X \<and> data Y2' = data X"
proof -
  let ?n = "numel (sizes X)"
  let ?dt = "cudnnTypeWrapper_type t"
  from rank obtain n h m c where X: "sizes X = n # (h # m) @ [c]"
    using split_rank3 [of "sizes X"] by auto
  define Y_dims where "Y_dims = n # c # h # m"
  have Yd: "NHWC2NCHW_Y_dims (sizes X) = Inr Y_dims"
    unfolding X Y_dims_def by (rule NHWC2NCHW_Y_dims_ends)
  note inv = Y_dims_inverse [OF rank Yd]
  from descriptor_layouts [OF rank pos bound Yd]
  obtain ds sa sb where oka: "layout_ok ds sa ?n" and okb: "layout_ok ds sb ?n"
    and DX: "\<And>dt. SetTensorDescriptor dt NHWC (sizes X) =
               Inr \<lparr>dataType = dt, nbDims = length ds, dimA = ds, strideA = sa\<rparr>"
    and DY: "\<And>dt. SetTensorDescriptor dt NCHW Y_dims =
               Inr \<lparr>dataType = dt, nbDims = length ds, dimA = ds, strideA = sb\<rparr>"
    by blast
  \<comment> \<open>the first call\<close>
  have hit1: "descriptors_derived ?dt NHWC NCHW (sizes X) (Inr Y_dims) st1"
    if "cached_X_dims st1 = sizes X"
    using inv1 that rank Yd by (simp add: NHWC2NCHW_cache_ok_def)
  from refresh_descriptors_ok [of NHWC "sizes X" "length ds" ds sa NCHW Y_dims sb st1 t,
      OF DX DY hit1]
  obtain st1' where r1: "refresh_descriptors t NHWC NCHW (sizes X) Y_dims st1 = (Inr (), st1')"
    and xd1: "X_desc st1' = Some \<lparr>dataType = ?dt, nbDims = length ds, dimA = ds, strideA = sa\<rparr>"
    and yd1: "Y_desc st1' = Some \<lparr>dataType = ?dt, nbDims = length ds, dimA = ds, strideA = sb\<rparr>"
    by blast
  have ny1: "numel (sizes (Resize Y1 Y_dims)) = ?n"
    by (simp add: Resize_def inv(3))
  from transform_into_ok [OF xd1 yd1 oka okb lx ny1, of u]
  obtain y1 where tr1: "transform_into t u X st1' (Resize Y1 Y_dims) =
        (Inr True, st1', \<lparr>meta = TypeMeta_Make t, sizes = Y_dims, data = y1\<rparr>)"
    and ly1: "length y1 = ?n"
    and rel1: "\<forall>i \<in> set (multi_indices (map (\<lambda>d. nat (sint d)) ds)).
                 y1 ! nat (offset (map sint sb) i) = data X ! nat (offset (map sint sa) i)"
    by (auto simp: Resize_def)
  let ?Y1' = "\<lparr>meta = TypeMeta_Make t, sizes = Y_dims, data = y1\<rparr>"
  have run1: "NHWC2NCHW_RunOnDevice u X (st1, Y1) = (Inr True, st1', ?Y1')"
    unfolding RunOnDevice_dispatch(1) [OF t] NHWC2NCHW_DoRunWithType_split
    by (simp add: Yd r1 tr1)
  \<comment> \<open>the second call, on the output of the first\<close>
  have t2: "meta ?Y1' = TypeMeta_Make t" by simp
  have hit2: "descriptors_derived ?dt NCHW NHWC Y_dims (Inr (sizes X)) st2"
    if "cached_X_dims st2 = Y_dims"
    using inv2 that rank inv(1,2) Yd by (simp add: NCHW2NHWC_cache_ok_def)
  from refresh_descriptors_ok [of NCHW Y_dims "length ds" ds sb NHWC "sizes X" sa st2 t,
      OF DY DX hit2]
  obtain st2' where r2: "refresh_descriptors t NCHW NHWC Y_dims (sizes X) st2 = (Inr (), st2')"
    and xd2: "X_desc st2' = Some \<lparr>dataType = ?dt, nbDims = length ds, dimA = ds, strideA = sb\<rparr>"
    and yd2: "Y_desc st2' = Some \<lparr>dataType = ?dt, nbDims = length ds, dimA = ds, strideA = sa\<rparr>"
    by blast
  have lx2: "length (data ?Y1') = ?n" using ly1 by simp
  have ny2: "numel (sizes (Resize Y2 (sizes X))) = ?n"
    by (simp add: Resize_def)
  from transform_into_ok [OF xd2 yd2 okb oka lx2 ny2, of u']
  obtain z where tr2: "transform_into t u' ?Y1' st2' (Resize Y2 (sizes X)) =
        (Inr True, st2', \<lparr>meta = TypeMeta_Make t, sizes = sizes X, data = z\<rparr>)"
    and lz: "length z = ?n"
    and rel2: "\<forall>i \<in> set (multi_indices (map (\<lambda>d. nat (sint d)) ds)).
                 z ! nat (offset (map sint sa) i) = y1 ! nat (offset (map sint sb) i)"
    by (auto simp: Resize_def)
  have run2: "NCHW2NHWC_RunOnDevice u' ?Y1' (st2, Y2) =
                (Inr True, st2', \<lparr>meta = TypeMeta_Make t, sizes = sizes X, data = z\<rparr>)"
    unfolding RunOnDevice_dispatch(2) [OF t2] NCHW2NHWC_DoRunWithType_split
    by (simp add: inv(1) r2 tr2)
  have "z = data X"
    using oka rel1 rel2 lx lz by (rule relayout_roundtrip)
  with run1 run2 t show ?thesis by simp
qed

theorem relayout_round_trip_witness:
  "\<exists>st1' Y1' st2' Y2'.
     NHWC2NCHW_RunOnDevice 0
       \<lparr>meta = meta_float, sizes = [1, 3, 2], data = [10, 20, 30, 40, 50, 60 :: nat]\<rparr>
       (CuDNNOrderSwithOpBase, \<lparr>meta = meta_float, sizes = [], data = [] :: nat list\<rparr>)
       = (Inr True, st1', Y1')
   \<and> NCHW2NHWC_RunOnDevice 0 Y1'
       (\<lparr>X_desc = Some \<lparr>dataType = CUDNN_DATA_FLOAT, nbDims = 4, dimA = [1, 2, 1, 3],
                         strideA = [6, 3, 3, 1]\<rparr>,
         Y_desc = Some \<lparr>dataType = CUDNN_DATA_FLOAT, nbDims = 4, dimA = [1, 2, 1, 3],
                         strideA = [6, 1, 6, 2]\<rparr>,
         cached_X_dims = [1, 2, 3]\<rparr>,
        \<lparr>meta = meta_float, sizes = [], data = [] :: nat list\<rparr>)
       = (Inr True, st2', Y2')
   \<and> meta Y2'
       = meta \<lparr>meta = meta_float, sizes = [1, 3, 2], data = [10, 20, 30, 40, 50, 60 :: nat]\<rparr>
   \<and> sizes Y2'
       = sizes \<lparr>meta = meta_float, sizes = [1, 3, 2], data = [10, 20, 30, 40, 50, 60 :: nat]\<rparr>
   \<and> data Y2'
       = data \<lparr>meta = meta_float, sizes = [1, 3, 2], data = [10, 20, 30, 40, 50, 60 :: nat]\<rparr>"
proof -
  let ?X = "\<lparr>meta = meta_float, sizes = [1, 3, 2], data = [10, 20, 30, 40, 50, 60 :: nat]\<rparr>"
  let ?Y = "\<lparr>meta = meta_float, sizes = [], data = [] :: nat list\<rparr>"
  let ?st2 = "\<lparr>X_desc = Some \<lparr>dataType = CUDNN_DATA_FLOAT, nbDims = 4, dimA = [1, 2, 1, 3],
                                 strideA = [6, 3, 3, 1]\<rparr>,
               Y_desc = Some \<lparr>dataType = CUDNN_DATA_FLOAT, nbDims = 4, dimA = [1, 2, 1, 3],
                                 strideA = [6, 1, 6, 2]\<rparr>,
               cached_X_dims = [1, 2, 3]\<rparr>"
  have h1: "3 \<le> length (sizes ?X)" by simp
  have h2: "\<forall>d \<in> set (sizes ?X). 0 < sint d" by simp
  have h3: "numel (sizes ?X) < 2 ^ 31" by (simp add: numel_def)
  have h4: "length (data ?X) = numel (sizes ?X)" by (simp add: numel_def)
  have h5: "meta ?X = TypeMeta_Make T_float" by simp
  have h6: "cached_X_dims CuDNNOrderSwithOpBase = sizes ?X \<longrightarrow>
              NHWC2NCHW_cache_ok (cudnnTypeWrapper_type T_float) CuDNNOrderSwithOpBase"
    by code_simp
  have h7: "NHWC2NCHW_Y_dims (sizes ?X) = Inr (cached_X_dims ?st2) \<longrightarrow>
              NCHW2NHWC_cache_ok (cudnnTypeWrapper_type T_float) ?st2"
    by code_simp
  from relayout_round_trip [OF h1 h2 h3 h4 h5 h6 h7, of 0 ?Y 0 ?Y]
  show ?thesis .
qed

text \<open>
  Without the condition on the instances the round trip fails. A new NHWC2NCHW operator is
  given a 32-bit float tensor of extents \<open>[1, 3, 2]\<close> and then a 16-bit float tensor of
  the same extents: the first call succeeds and caches the extents with descriptors for
  32-bit float; the second call finds the extents in the cache, keeps these descriptors
  (lines 95 to 101), and the transform refuses them.
\<close>

theorem relayout_round_trip_stale_type_counterexample:
  "fst (NHWC2NCHW_RunOnDevice (0 :: nat)
          \<lparr>meta = meta_float, sizes = [1, 3, 2], data = [10, 20, 30, 40, 50, 60]\<rparr>
          (CuDNNOrderSwithOpBase, \<lparr>meta = meta_float, sizes = [], data = []\<rparr>))
     = Inr True
   \<and> fst (NHWC2NCHW_RunOnDevice (0 :: nat)
          \<lparr>meta = meta_Half, sizes = [1, 3, 2], data = [10, 20, 30, 40, 50, 60]\<rparr>
          (snd (NHWC2NCHW_RunOnDevice (0 :: nat)
                  \<lparr>meta = meta_float, sizes = [1, 3, 2], data = [10, 20, 30, 40, 50, 60]\<rparr>
                  (CuDNNOrderSwithOpBase, \<lparr>meta = meta_float, sizes = [], data = []\<rparr>))))
     = Inl TransformFailure"
  by code_simp

text \<open>The first half of the round trip on six cells: the two channels are gathered.\<close>

lemma relayout_example:
  "NHWC2NCHW_RunOnDevice (0 :: nat)
     \<lparr>meta = meta_float, sizes = [1, 3, 2], data = [10, 20, 30, 40, 50, 60]\<rparr>
     (CuDNNOrderSwithOpBase, \<lparr>meta = meta_float, sizes = [], data = []\<rparr>) =
   (Inr True,
    \<lparr>X_desc = Some \<lparr>dataType = CUDNN_DATA_FLOAT, nbDims = 4, dimA = [1, 2, 1, 3],
                      strideA = [6, 1, 6, 2]\<rparr>,
     Y_desc = Some \<lparr>dataType = CUDNN_DATA_FLOAT, nbDims = 4, dimA = [1, 2, 1, 3],
                      strideA = [6, 3, 3, 1]\<rparr>,
     cached_X_dims = [1, 3, 2]\<rparr>,
    \<lparr>meta = meta_float, sizes = [1, 2, 3], data = [10, 30, 50, 20, 40, 60]\<rparr>)"
  by code_simp

text \<open>
  The bound on the element count cannot be raised. An input of extents
  \<open>[1, 1, 1, 65536, 32768, 1]\<close> has \<open>2 ^ 31\<close> cells; the product of line 56,
  \<open>65536 * 32768\<close>, wraps to the least \<^verbatim>\<open>int\<close>, so that the descriptors of both
  operators have the extent \<open>D\<close> negative and span no cell. Both calls return, and the
  output holds the content of new storage, not the values of the input.
\<close>

lemma int_range_numel:
  "numel [1, 1, 1, 65536, 32768, 1] = 2 ^ 31"
  "numel [1, 1, 1, 1, 65536, 32768] = 2 ^ 31"
  by (simp_all add: numel_def)

lemma int_range_Y_dims:
  "NHWC2NCHW_Y_dims [1, 1, 1, 65536, 32768, 1] = Inr [1, 1, 1, 1, 65536, 32768]"
  "NCHW2NHWC_Y_dims [1, 1, 1, 1, 65536, 32768] = Inr [1, 1, 1, 65536, 32768, 1]"
  by code_simp+

lemma int_range_descriptors:
  "SetTensorDescriptor dt NHWC [1, 1, 1, 65536, 32768, 1] =
     Inr \<lparr>dataType = dt, nbDims = 5, dimA = [1, 1, 1, 1, 2147483648],
          strideA = [2147483648, 1, 2147483648, 2147483648, 1]\<rparr>"
  "SetTensorDescriptor dt NCHW [1, 1, 1, 1, 65536, 32768] =
     Inr \<lparr>dataType = dt, nbDims = 5, dimA = [1, 1, 1, 1, 2147483648],
          strideA = [2147483648, 2147483648, 2147483648, 2147483648, 1]\<rparr>"
  by (cases dt; code_simp)+

lemma int_range_indices:
  "sint (2147483648 :: int32) = - (2 ^ 31)"
  "multi_indices (map (\<lambda>d. nat (sint d)) [1, 1, 1, 1, 2147483648 :: int32]) = []"
  by code_simp+

lemma int_range_first_call:
  "NHWC2NCHW_RunOnDevice (0 :: nat)
     \<lparr>meta = meta_float, sizes = [1, 1, 1, 65536, 32768, 1], data = replicate (2 ^ 31) 7\<rparr>
     (CuDNNOrderSwithOpBase, \<lparr>meta = meta_float, sizes = [], data = []\<rparr>) =
   (Inr True,
    \<lparr>X_desc = Some \<lparr>dataType = CUDNN_DATA_FLOAT, nbDims = 5,
                      dimA = [1, 1, 1, 1, 2147483648],
                      strideA = [2147483648, 1, 2147483648, 2147483648, 1]\<rparr>,
     Y_desc = Some \<lparr>dataType = CUDNN_DATA_FLOAT, nbDims = 5,
                      dimA = [1, 1, 1, 1, 2147483648],
                      strideA = [2147483648, 2147483648, 2147483648, 2147483648, 1]\<rparr>,
     cached_X_dims = [1, 1, 1, 65536, 32768, 1]\<rparr>,
    \<lparr>meta = meta_float, sizes = [1, 1, 1, 1, 65536, 32768], data = replicate (2 ^ 31) 0\<rparr>)"
  by (simp add: RunOnDevice_dispatch(1) [of _ T_float] NHWC2NCHW_DoRunWithType_split
      int_range_Y_dims refresh_descriptors_def CuDNNOrderSwithOpBase_def int_range_descriptors
      transform_into_def mutable_data_def Resize_def int_range_numel cudnnTransformTensor_def
      int_range_indices Let_def)

lemma relayout_int_range_example:
  "fst (NCHW2NHWC_RunOnDevice (0 :: nat)
          (snd (snd (NHWC2NCHW_RunOnDevice (0 :: nat)
             \<lparr>meta = meta_float, sizes = [1, 1, 1, 65536, 32768, 1],
                data = replicate (2 ^ 31) 7\<rparr>
             (CuDNNOrderSwithOpBase, \<lparr>meta = meta_float, sizes = [], data = []\<rparr>))))
          (CuDNNOrderSwithOpBase, \<lparr>meta = meta_float, sizes = [], data = []\<rparr>))
     = Inr True
   \<and> snd (snd (NCHW2NHWC_RunOnDevice (0 :: nat)
          (snd (snd (NHWC2NCHW_RunOnDevice (0 :: nat)
             \<lparr>meta = meta_float, sizes = [1, 1, 1, 65536, 32768, 1],
                data = replicate (2 ^ 31) 7\<rparr>
             (CuDNNOrderSwithOpBase, \<lparr>meta = meta_float, sizes = [], data = []\<rparr>))))
          (CuDNNOrderSwithOpBase, \<lparr>meta = meta_float, sizes = [], data = []\<rparr>)))
     = \<lparr>meta = meta_float, sizes = [1, 1, 1, 65536, 32768, 1], data = replicate (2 ^ 31) 0\<rparr>"
  unfolding int_range_first_call
  by (simp add: RunOnDevice_dispatch(2) [of _ T_float] NCHW2NHWC_DoRunWithType_split
      int_range_Y_dims refresh_descriptors_def CuDNNOrderSwithOpBase_def int_range_descriptors
      transform_into_def mutable_data_def Resize_def int_range_numel cudnnTransformTensor_def
      int_range_indices Let_def)

end
